theory Spec2Isabelle
  imports Complex_Main
begin

section \<open>Time units and constants\<close>

text \<open>
  The type \<open>TimeUnit\<close> of the chart configuration and the extended unit type of
  \<open>useTimeaxisUnits.ts\<close>, which adds \<open>year\<close> and \<open>isoWeek\<close>.
\<close>

datatype TimeUnit = Hour | Day | Date | Week | Month

datatype ExtendedTimeUnit = Base TimeUnit | Year | IsoWeek

definition BASE_UNIT_WIDTH :: int where
  "BASE_UNIT_WIDTH = 24"

definition MAX_ZOOM :: int where
  "MAX_ZOOM = 10"

definition MIN_ZOOM :: int where
  "MIN_ZOOM = 1"

definition DEFAULT_ZOOM :: int where
  "DEFAULT_ZOOM = 3"

definition CACHE_TTL :: int where
  "CACHE_TTL = 5 * 60 * 1000"

section \<open>Strings\<close>

text \<open>
  Numbers printed in decimal, as \<open>Number.prototype.toString\<close> and template literals
  print an integer, and \<open>String.prototype.padStart\<close>.
\<close>

definition digit :: "nat \<Rightarrow> char" where
  "digit n = ''0123456789'' ! n"

fun toStringNat :: "nat \<Rightarrow> string" where
  "toStringNat n = (if n < 10 then [digit n] else toStringNat (n div 10) @ [digit (n mod 10)])"

definition toString :: "int \<Rightarrow> string" where
  "toString i = (if i < 0 then CHR ''-'' # toStringNat (nat (- i)) else toStringNat (nat i))"

definition padStart :: "nat \<Rightarrow> string \<Rightarrow> string \<Rightarrow> string" where
  "padStart targetLength padString str =
     (if targetLength \<le> length str \<or> padString = [] then str
      else take (targetLength - length str)
             (concat (replicate (targetLength - length str) padString)) @ str)"

text \<open>
  Text that may hold any Unicode character (the labels) is a list of code points.
\<close>

type_synonym codepoint = nat

type_synonym ustring = "codepoint list"

definition codes :: "string \<Rightarrow> ustring" where
  "codes s = map of_char s"

section \<open>Calendar formatter: capitalisation\<close>

text \<open>
  The functions of the ECMAScript runtime that \<open>capitalizeString\<close> calls are parameters:
  the test for the Unicode property \<open>\p{L}\<close>, canonical decomposition
  \<open>normalize("NFD")\<close>, and \<open>toLocaleUpperCase\<close> of the one matched letter.
\<close>

record unicode =
  isLetter :: "codepoint \<Rightarrow> bool"
  normalizeNFD :: "ustring \<Rightarrow> ustring"
  toLocaleUpperCase :: "codepoint \<Rightarrow> ustring"

text \<open>The class \<open>\s\<close> of an ECMAScript regular expression: white space and line terminators.\<close>

definition isSpace :: "codepoint \<Rightarrow> bool" where
  "isSpace c = (c \<in> set [0x9, 0xA, 0xB, 0xC, 0xD, 0x20, 0xA0, 0x1680, 0x2028, 0x2029,
                          0x202F, 0x205F, 0x3000, 0xFEFF]
               \<or> (0x2000 \<le> c \<and> c \<le> 0x200A))"

definition startsWithLetter :: "unicode \<Rightarrow> ustring \<Rightarrow> bool" where
  "startsWithLetter U w = (case w of [] \<Rightarrow> False | c # cs \<Rightarrow> isLetter U c)"

definition capitalizeString :: "unicode \<Rightarrow> ustring \<Rightarrow> ustring" where
  "capitalizeString U str =
     (if str = [] then str
      else (case normalizeNFD U str of
              [] \<Rightarrow> []
            | c # cs \<Rightarrow> if isLetter U c then toLocaleUpperCase U c @ cs else c # cs))"

text \<open>
  \<open>str.split(/(\s+|\.|\,)/)\<close>: the pieces between the separators and, because of the
  capture group, the separators themselves, in order. A separator is a maximal run of
  white space, one period or one comma. \<open>word\<close> collects the piece being read.
\<close>

function splitWords :: "ustring \<Rightarrow> ustring \<Rightarrow> ustring list" where
  "splitWords word [] = [word]"
| "splitWords word (c # cs) =
     (if isSpace c then word # (c # takeWhile isSpace cs) # splitWords [] (dropWhile isSpace cs)
      else if c = 0x2E \<or> c = 0x2C then word # [c] # splitWords [] cs
      else splitWords (word @ [c]) cs)"
  by pat_completeness auto
termination
  by (relation "measure (\<lambda>(word, s). length s)")
     (auto simp: length_dropWhile_le less_Suc_eq_le)

definition capitalizeWords :: "unicode \<Rightarrow> ustring \<Rightarrow> ustring" where
  "capitalizeWords U str =
     concat (map (\<lambda>word. if startsWithLetter U word then capitalizeString U word else word)
               (splitWords [] str))"

text \<open>A word with its first character upper-cased when that character is a letter.\<close>

definition capFirst :: "unicode \<Rightarrow> ustring \<Rightarrow> ustring" where
  "capFirst U w =
     (case w of
        [] \<Rightarrow> []
      | c # cs \<Rightarrow> if isLetter U c then toLocaleUpperCase U c @ cs else c # cs)"

text \<open>
  The spec's description of \<open>capitalizeWords\<close>, read as one pass over the characters:
  white space, period and comma are boundaries and are copied; the first character of a
  word is upper-cased when it is a letter; every other character is copied.
\<close>

definition isBoundary :: "codepoint \<Rightarrow> bool" where
  "isBoundary c = (isSpace c \<or> c = 0x2E \<or> c = 0x2C)"

fun capitalizeScan :: "unicode \<Rightarrow> bool \<Rightarrow> ustring \<Rightarrow> ustring" where
  "capitalizeScan U atStart [] = []"
| "capitalizeScan U atStart (c # cs) =
     (if isBoundary c then c # capitalizeScan U True cs
      else if atStart \<and> isLetter U c then toLocaleUpperCase U c @ capitalizeScan U False cs
      else c # capitalizeScan U False cs)"

text \<open>
  The runtime on Basic Latin and the Latin-1 Supplement (code points below \<open>U+0100\<close>),
  from the Unicode Character Database: the letters, the canonical decompositions (a base
  letter and one combining mark) and the upper-case mappings, in a locale without special
  casing of \<open>i\<close>. Code points from \<open>U+0100\<close> on are left alone and are not letters,
  which is right for the combining marks \<open>U+0300\<close> to \<open>U+036F\<close>.
\<close>

definition latin1Letter :: "codepoint \<Rightarrow> bool" where
  "latin1Letter c =
     ((0x41 \<le> c \<and> c \<le> 0x5A) \<or> (0x61 \<le> c \<and> c \<le> 0x7A)
      \<or> c = 0xAA \<or> c = 0xB5 \<or> c = 0xBA
      \<or> (0xC0 \<le> c \<and> c \<le> 0xD6) \<or> (0xD8 \<le> c \<and> c \<le> 0xF6)
      \<or> (0xF8 \<le> c \<and> c \<le> 0xFF))"

definition latin1Marks :: "(codepoint \<times> codepoint) option list" where
  "latin1Marks =
     [Some (0x41, 0x300), Some (0x41, 0x301), Some (0x41, 0x302), Some (0x41, 0x303),
      Some (0x41, 0x308), Some (0x41, 0x30A), None, Some (0x43, 0x327),
      Some (0x45, 0x300), Some (0x45, 0x301), Some (0x45, 0x302), Some (0x45, 0x308),
      Some (0x49, 0x300), Some (0x49, 0x301), Some (0x49, 0x302), Some (0x49, 0x308),
      None, Some (0x4E, 0x303), Some (0x4F, 0x300), Some (0x4F, 0x301),
      Some (0x4F, 0x302), Some (0x4F, 0x303), Some (0x4F, 0x308), None,
      None, Some (0x55, 0x300), Some (0x55, 0x301), Some (0x55, 0x302),
      Some (0x55, 0x308), Some (0x59, 0x301), None, None]"

definition latin1Decompose :: "codepoint \<Rightarrow> ustring" where
  "latin1Decompose c =
     (if 0xC0 \<le> c \<and> c \<le> 0xDF then
        (case latin1Marks ! (c - 0xC0) of None \<Rightarrow> [c] | Some (b, m) \<Rightarrow> [b, m])
      else if c = 0xFF then [0x79, 0x308]
      else if 0xE0 \<le> c \<and> c \<le> 0xFE then
        (case latin1Marks ! (c - 0xE0) of None \<Rightarrow> [c] | Some (b, m) \<Rightarrow> [b + 0x20, m])
      else [c])"

definition latin1Upper :: "codepoint \<Rightarrow> ustring" where
  "latin1Upper c =
     (if 0x61 \<le> c \<and> c \<le> 0x7A then [c - 0x20]
      else if c = 0xB5 then [0x39C]
      else if c = 0xDF then [0x53, 0x53]
      else if c = 0xF7 then [c]
      else if 0xE0 \<le> c \<and> c \<le> 0xFE then [c - 0x20]
      else if c = 0xFF then [0x178]
      else [c])"

definition latin1 :: unicode where
  "latin1 = \<lparr>isLetter = latin1Letter,
             normalizeNFD = (\<lambda>s. concat (map latin1Decompose s)),
             toLocaleUpperCase = latin1Upper\<rparr>"

section \<open>Date values\<close>

text \<open>
  The values of the date library, as far as the unit computation uses them: a date value
  holds the calendar fields of its instant (year, month from \<open>0\<close>, day of the month,
  hour, minute, second, millisecond) in the chart's time zone, which is taken to have a
  fixed offset (no daylight-saving change), so that an hour is 3600000 ms and a day is
  24 hours. \<open>valueOf\<close> counts milliseconds from 1970-01-01 00:00 of that zone; the day
  number follows ECMAScript's \<open>DayFromYear\<close>.
\<close>

record Dayjs =
  dYear :: int
  dMonth :: nat
  dDate :: nat
  dHour :: nat
  dMinute :: nat
  dSecond :: nat
  dMillisecond :: nat

datatype ManipulateType = UHour | UDay | UWeek | UMonth | UYear

definition isLeapYear :: "int \<Rightarrow> bool" where
  "isLeapYear y = ((y mod 4 = 0 \<and> y mod 100 \<noteq> 0) \<or> y mod 400 = 0)"

definition daysInMonth :: "int \<Rightarrow> nat \<Rightarrow> nat" where
  "daysInMonth y m =
     (if m = 1 then (if isLeapYear y then 29 else 28)
      else if m = 3 \<or> m = 5 \<or> m = 8 \<or> m = 10 then 30
      else 31)"

definition dayFromYear :: "int \<Rightarrow> int" where
  "dayFromYear y =
     365 * (y - 1970) + (y - 1969) div 4 - (y - 1901) div 100 + (y - 1601) div 400"

text \<open>The number of days of a year.\<close>

definition daysInYear :: "int \<Rightarrow> nat" where
  "daysInYear y = (if isLeapYear y then 366 else 365)"

definition dayNumber :: "Dayjs \<Rightarrow> int" where
  "dayNumber d =
     dayFromYear (dYear d) + int (sum_list (map (daysInMonth (dYear d)) [0..<dMonth d]))
       + int (dDate d) - 1"

definition valueOf :: "Dayjs \<Rightarrow> int" where
  "valueOf d =
     (((dayNumber d * 24 + int (dHour d)) * 60 + int (dMinute d)) * 60 + int (dSecond d)) * 1000
       + int (dMillisecond d)"

definition validDayjs :: "Dayjs \<Rightarrow> bool" where
  "validDayjs d =
     (dMonth d < 12 \<and> 1 \<le> dDate d \<and> dDate d \<le> daysInMonth (dYear d) (dMonth d)
      \<and> dHour d < 24 \<and> dMinute d < 60 \<and> dSecond d < 60 \<and> dMillisecond d < 1000)"

definition isBefore :: "Dayjs \<Rightarrow> Dayjs \<Rightarrow> bool" where
  "isBefore a b = (valueOf a < valueOf b)"

definition isAfter :: "Dayjs \<Rightarrow> Dayjs \<Rightarrow> bool" where
  "isAfter a b = (valueOf a > valueOf b)"

definition nextDay :: "Dayjs \<Rightarrow> Dayjs" where
  "nextDay d =
     (if dDate d < daysInMonth (dYear d) (dMonth d) then d\<lparr>dDate := dDate d + 1\<rparr>
      else if dMonth d < 11 then d\<lparr>dMonth := dMonth d + 1, dDate := 1\<rparr>
      else d\<lparr>dYear := dYear d + 1, dMonth := 0, dDate := 1\<rparr>)"

definition prevDay :: "Dayjs \<Rightarrow> Dayjs" where
  "prevDay d =
     (if 1 < dDate d then d\<lparr>dDate := dDate d - 1\<rparr>
      else if 0 < dMonth d
        then d\<lparr>dMonth := dMonth d - 1, dDate := daysInMonth (dYear d) (dMonth d - 1)\<rparr>
      else d\<lparr>dYear := dYear d - 1, dMonth := 11, dDate := 31\<rparr>)"

text \<open>
  \<open>add(n, "month")\<close>: the month moves by \<open>n\<close> with the year carried, and the day of
  the month is cut down to the length of the month reached.
\<close>

definition addMonths :: "int \<Rightarrow> Dayjs \<Rightarrow> Dayjs" where
  "addMonths n d =
     (let t = int (dMonth d) + n;
          y = dYear d + t div 12;
          m = nat (t mod 12)
      in d\<lparr>dYear := y, dMonth := m, dDate := min (dDate d) (daysInMonth y m)\<rparr>)"

text \<open>\<open>add(1, unit)\<close>.\<close>

fun add1 :: "ManipulateType \<Rightarrow> Dayjs \<Rightarrow> Dayjs" where
  "add1 UHour d =
     (if dHour d + 1 < 24 then d\<lparr>dHour := dHour d + 1\<rparr> else nextDay (d\<lparr>dHour := 0\<rparr>))"
| "add1 UDay d = nextDay d"
| "add1 UWeek d = (nextDay ^^ 7) d"
| "add1 UMonth d = addMonths 1 d"
| "add1 UYear d = addMonths 12 d"

text \<open>\<open>startOf(unit)\<close>; a week starts on Sunday, and 1970-01-01 was a Thursday.\<close>

definition startOfDay :: "Dayjs \<Rightarrow> Dayjs" where
  "startOfDay d = d\<lparr>dHour := 0, dMinute := 0, dSecond := 0, dMillisecond := 0\<rparr>"

fun startOf :: "ManipulateType \<Rightarrow> Dayjs \<Rightarrow> Dayjs" where
  "startOf UHour d = d\<lparr>dMinute := 0, dSecond := 0, dMillisecond := 0\<rparr>"
| "startOf UDay d = startOfDay d"
| "startOf UWeek d = (prevDay ^^ nat ((dayNumber d + 4) mod 7)) (startOfDay d)"
| "startOf UMonth d = startOfDay (d\<lparr>dDate := 1\<rparr>)"
| "startOf UYear d = startOfDay (d\<lparr>dMonth := 0, dDate := 1\<rparr>)"

text \<open>
  \<open>a.diff(b, unit, true)\<close>, the difference as a fraction of the unit, as an exact
  fraction where the source has a double-precision number. Hours, days and weeks divide
  the millisecond difference; months follow the library's month difference, which
  measures the remainder against the length of the month around the anchor.
\<close>

definition monthDiffAnchored :: "Dayjs \<Rightarrow> Dayjs \<Rightarrow> rat" where
  "monthDiffAnchored a b =
     (let wholeMonthDiff = (dYear b - dYear a) * 12 + (int (dMonth b) - int (dMonth a));
          anchor = addMonths wholeMonthDiff a;
          c = (valueOf b - valueOf anchor < 0);
          anchor2 = addMonths (wholeMonthDiff + (if c then -1 else 1)) a
      in - (of_int wholeMonthDiff
            + of_int (valueOf b - valueOf anchor)
              / (if c then of_int (valueOf anchor - valueOf anchor2)
                 else of_int (valueOf anchor2 - valueOf anchor))))"

definition monthDiff :: "Dayjs \<Rightarrow> Dayjs \<Rightarrow> rat" where
  "monthDiff a b =
     (if dDate a < dDate b then - monthDiffAnchored b a else monthDiffAnchored a b)"

fun diff :: "Dayjs \<Rightarrow> Dayjs \<Rightarrow> ManipulateType \<Rightarrow> rat" where
  "diff a b UHour = of_int (valueOf a - valueOf b) / 3600000"
| "diff a b UDay = of_int (valueOf a - valueOf b) / 86400000"
| "diff a b UWeek = of_int (valueOf a - valueOf b) / 604800000"
| "diff a b UMonth = monthDiff a b"
| "diff a b UYear = monthDiff a b / 12"

text \<open>
  \<open>format\<close> for the tokens that the display formats use, with English month names:
  \<open>YYYY\<close>, \<open>MMMM\<close>, \<open>MMM\<close>, \<open>DD\<close> and \<open>HH\<close>; any other character is copied.
\<close>

definition monthNames :: "string list" where
  "monthNames = [''January'', ''February'', ''March'', ''April'', ''May'', ''June'', ''July'',
                 ''August'', ''September'', ''October'', ''November'', ''December'']"

definition startsWith :: "string \<Rightarrow> string \<Rightarrow> bool" where
  "startsWith token fs = (take (length token) fs = token)"

function formatCore :: "Dayjs \<Rightarrow> string \<Rightarrow> string" where
  "formatCore d fs =
     (if fs = [] then []
      else if startsWith ''YYYY'' fs
        then padStart 4 ''0'' (toString (dYear d)) @ formatCore d (drop 4 fs)
      else if startsWith ''MMMM'' fs then monthNames ! dMonth d @ formatCore d (drop 4 fs)
      else if startsWith ''MMM'' fs
        then take 3 (monthNames ! dMonth d) @ formatCore d (drop 3 fs)
      else if startsWith ''DD'' fs
        then padStart 2 ''0'' (toString (int (dDate d))) @ formatCore d (drop 2 fs)
      else if startsWith ''HH'' fs
        then padStart 2 ''0'' (toString (int (dHour d))) @ formatCore d (drop 2 fs)
      else hd fs # formatCore d (tl fs))"
  by pat_completeness auto
termination
  by (relation "measure (\<lambda>(d, fs). length fs)") auto

section \<open>Units and the configuration\<close>

record TimeaxisUnit =
  label :: ustring
  "value" :: string
  date :: Dayjs
  width :: string
  isHoliday :: bool
  holidayName :: "string option"
  holidayType :: "string option"

record HolidayInfo =
  infoIsHoliday :: bool
  infoHolidayName :: "string option"
  infoHolidayType :: "string option"

text \<open>
  What the unit computation reads from the chart configuration and from its
  collaborators: the viewport, the two switches, the holiday lookup, the date library's
  \<open>format\<close> and \<open>toString\<close> (which depend on the locale and on the plugins loaded),
  and the Unicode functions of the runtime.
\<close>

record config =
  chartStart :: Dayjs
  chartEnd :: Dayjs
  holidayHighlight :: bool
  enableMinutes :: bool
  getHolidayInfo :: "Dayjs \<Rightarrow> HolidayInfo option"
  formatDayjs :: "Dayjs \<Rightarrow> string \<Rightarrow> ustring"
  toStringDayjs :: "Dayjs \<Rightarrow> string"
  runtime :: unicode

fun unitName :: "ExtendedTimeUnit \<Rightarrow> string" where
  "unitName (Base Hour) = ''hour''"
| "unitName (Base Day) = ''day''"
| "unitName (Base Date) = ''date''"
| "unitName (Base Week) = ''week''"
| "unitName (Base Month) = ''month''"
| "unitName Year = ''year''"
| "unitName IsoWeek = ''isoWeek''"

fun displayFormats :: "TimeUnit + unit \<Rightarrow> string" where
  "displayFormats (Inl Hour) = ''HH''"
| "displayFormats (Inl Date) = ''DD.MMM''"
| "displayFormats (Inl Day) = ''DD.MMM''"
| "displayFormats (Inl Week) = ''WW''"
| "displayFormats (Inl Month) = ''MMMM YYYY''"
| "displayFormats (Inr ()) = ''YYYY''"

fun getDisplayFormat :: "ExtendedTimeUnit \<Rightarrow> string" where
  "getDisplayFormat IsoWeek = displayFormats (Inl Week)"
| "getDisplayFormat (Base u) = displayFormats (Inl u)"
| "getDisplayFormat Year = displayFormats (Inr ())"

fun getDayjsUnit :: "ExtendedTimeUnit \<Rightarrow> ManipulateType" where
  "getDayjsUnit (Base Hour) = UHour"
| "getDayjsUnit (Base Day) = UDay"
| "getDayjsUnit (Base Date) = UDay"
| "getDayjsUnit (Base Week) = UWeek"
| "getDayjsUnit (Base Month) = UMonth"
| "getDayjsUnit Year = UYear"
| "getDayjsUnit IsoWeek = UWeek"

fun upperPrecision :: "TimeUnit \<Rightarrow> ExtendedTimeUnit" where
  "upperPrecision Hour = Base Day"
| "upperPrecision Day = Base Month"
| "upperPrecision Date = Base Month"
| "upperPrecision Week = Base Month"
| "upperPrecision Month = Year"

definition unitWidth :: "int \<Rightarrow> int" where
  "unitWidth zoom = BASE_UNIT_WIDTH * zoom"

definition createTimeaxisUnit :: "config \<Rightarrow> Dayjs \<Rightarrow> string \<Rightarrow> string \<Rightarrow> TimeaxisUnit" where
  "createTimeaxisUnit cfg moment format w =
     (let holidayInfo = (if holidayHighlight cfg then getHolidayInfo cfg moment else None);
          formattedLabel = formatDayjs cfg moment format;
          capitalizedLabel = capitalizeWords (runtime cfg) formattedLabel
      in \<lparr>label = capitalizedLabel,
          value = toStringDayjs cfg moment,
          date = moment,
          width = w,
          isHoliday = (case holidayInfo of None \<Rightarrow> False | Some h \<Rightarrow> infoIsHoliday h),
          holidayName = (case holidayInfo of None \<Rightarrow> None | Some h \<Rightarrow> infoHolidayName h),
          holidayType = (case holidayInfo of None \<Rightarrow> None | Some h \<Rightarrow> infoHolidayType h)\<rparr>)"

section \<open>Windowed cache\<close>

record CacheEntry =
  timestamp :: int
  units :: "TimeaxisUnit list"

type_synonym store = "string \<rightharpoonup> CacheEntry"

record TimeaxisCache =
  lower :: store
  upper :: store

definition getCacheKey :: "Dayjs \<Rightarrow> Dayjs \<Rightarrow> ExtendedTimeUnit \<Rightarrow> int \<Rightarrow> string" where
  "getCacheKey startDate endDate precision zoom =
     toString (valueOf startDate) @ ''-'' @ toString (valueOf endDate) @ ''-''
       @ unitName precision @ ''-'' @ toString zoom"

text \<open>
  \<open>getFromCache\<close> returns the units, or \<open>None\<close> for \<open>null\<close>, together with the store
  as the call leaves it. \<open>now\<close> is the reading of \<open>Date.now()\<close>.
\<close>

definition getFromCache :: "int \<Rightarrow> store \<Rightarrow> string \<Rightarrow> TimeaxisUnit list option \<times> store" where
  "getFromCache now cacheMap key =
     (case cacheMap key of
        None \<Rightarrow> (None, cacheMap)
      | Some entry \<Rightarrow>
          if now - timestamp entry > CACHE_TTL then (None, cacheMap(key := None))
          else (Some (units entry), cacheMap))"

definition setInCache :: "int \<Rightarrow> store \<Rightarrow> string \<Rightarrow> TimeaxisUnit list \<Rightarrow> store" where
  "setInCache now cacheMap key us = cacheMap(key \<mapsto> \<lparr>timestamp = now, units = us\<rparr>)"

definition sweep :: "int \<Rightarrow> store \<Rightarrow> store" where
  "sweep now cacheMap =
     (\<lambda>key. case cacheMap key of
               None \<Rightarrow> None
             | Some entry \<Rightarrow> if now - timestamp entry > CACHE_TTL then None else Some entry)"

definition cleanExpiredCache :: "int \<Rightarrow> TimeaxisCache \<Rightarrow> TimeaxisCache" where
  "cleanExpiredCache now cache = \<lparr>lower = sweep now (lower cache), upper = sweep now (upper cache)\<rparr>"

section \<open>Precision state machine\<close>

text \<open>
  \<open>Array.prototype.indexOf\<close>: the position of the first occurrence, \<open>-1\<close> when
  the element does not occur.
\<close>

fun indexOf :: "'a list \<Rightarrow> 'a \<Rightarrow> int" where
  "indexOf [] x = -1"
| "indexOf (y # ys) x =
     (if y = x then 0 else (let i = indexOf ys x in if i < 0 then -1 else i + 1))"

definition precisionHierarchy :: "TimeUnit list" where
  "precisionHierarchy = [Hour, Day, Week, Month]"

text \<open>
  \<open>getNextPrecision\<close> and \<open>getPreviousPrecision\<close>. The array reads are in range
  whenever the guard holds, because \<open>indexOf\<close> is at least \<open>-1\<close>.
\<close>

definition getNextPrecision :: "TimeUnit \<Rightarrow> TimeUnit" where
  "getNextPrecision currentPrecision =
     (let currentIndex = indexOf precisionHierarchy currentPrecision
      in if currentIndex < int (length precisionHierarchy) - 1
         then precisionHierarchy ! nat (currentIndex + 1)
         else currentPrecision)"

definition getPreviousPrecision :: "TimeUnit \<Rightarrow> TimeUnit \<Rightarrow> TimeUnit" where
  "getPreviousPrecision configPrecision currentPrecision =
     (let currentIndex = indexOf precisionHierarchy currentPrecision;
          configIndex = indexOf precisionHierarchy configPrecision
      in if currentIndex > 0 \<and> currentIndex > configIndex
         then precisionHierarchy ! nat (currentIndex - 1)
         else currentPrecision)"

text \<open>
  The reactive state of one chart instance that the zoom mutator touches: the configured
  precision (owned by the configuration), the internal precision and the zoom level.
\<close>

record machine =
  configPrecision :: TimeUnit
  internalPrecision :: TimeUnit
  zoomLevel :: int

definition initial :: "TimeUnit \<Rightarrow> machine" where
  "initial p = \<lparr>configPrecision = p, internalPrecision = p, zoomLevel = DEFAULT_ZOOM\<rparr>"

definition adjustZoomAndPrecision :: "bool \<Rightarrow> machine \<Rightarrow> machine" where
  "adjustZoomAndPrecision increase st =
     (if increase then
        (if zoomLevel st = MAX_ZOOM then
           (let previousPrecision =
                  getPreviousPrecision (configPrecision st) (internalPrecision st)
            in if previousPrecision \<noteq> internalPrecision st
               then st\<lparr>internalPrecision := previousPrecision, zoomLevel := MIN_ZOOM\<rparr>
               else st)
         else st\<lparr>zoomLevel := zoomLevel st + 1\<rparr>)
      else
        (if zoomLevel st = MIN_ZOOM then
           (let nextPrecision = getNextPrecision (internalPrecision st)
            in if nextPrecision \<noteq> internalPrecision st
               then st\<lparr>internalPrecision := nextPrecision, zoomLevel := MAX_ZOOM\<rparr>
               else st)
         else st\<lparr>zoomLevel := zoomLevel st - 1\<rparr>))"

text \<open>
  The watcher on the configured precision: when the configuration changes to a new value,
  the internal precision follows it and the zoom level goes back to the default. The
  watcher fires only on a change of the watched value.
\<close>

definition watchConfigPrecision :: "machine \<Rightarrow> machine" where
  "watchConfigPrecision st =
     st\<lparr>internalPrecision := configPrecision st, zoomLevel := DEFAULT_ZOOM\<rparr>"

definition setConfigPrecision :: "TimeUnit \<Rightarrow> machine \<Rightarrow> machine" where
  "setConfigPrecision p st =
     (if p = configPrecision st then st
      else watchConfigPrecision (st\<lparr>configPrecision := p\<rparr>))"

datatype event = Zoom bool | SetConfigPrecision TimeUnit

fun step :: "machine \<Rightarrow> event \<Rightarrow> machine" where
  "step st (Zoom increase) = adjustZoomAndPrecision increase st"
| "step st (SetConfigPrecision p) = setConfigPrecision p st"

definition run :: "machine \<Rightarrow> event list \<Rightarrow> machine" where
  "run st evs = foldl step st evs"

definition zooms :: "machine \<Rightarrow> bool list \<Rightarrow> machine" where
  "zooms st bs = foldl (\<lambda>s b. adjustZoomAndPrecision b s) st bs"

text \<open>
  How fine a precision is: the position of its calendar unit in the hierarchy. The
  calendar unit of \<open>date\<close> is the day (\<open>getDayjsUnit\<close> below maps \<open>date\<close> to
  \<open>day\<close>), so \<open>date\<close> is as fine as \<open>day\<close>.
\<close>

fun fineness :: "TimeUnit \<Rightarrow> nat" where
  "fineness Hour = 0"
| "fineness Day = 1"
| "fineness Date = 1"
| "fineness Week = 2"
| "fineness Month = 3"

definition inHierarchy :: "TimeUnit \<Rightarrow> bool" where
  "inHierarchy p = (p \<in> set precisionHierarchy)"

definition floorRespected :: "machine \<Rightarrow> bool" where
  "floorRespected st =
     (inHierarchy (configPrecision st) \<and> inHierarchy (internalPrecision st)
      \<and> fineness (configPrecision st) \<le> fineness (internalPrecision st))"

section \<open>Minute-step calculator\<close>

text \<open>
  \<open>calculateMinuteSteps\<close> reads the minute switch, the internal precision and the unit
  width; they are its arguments here.
\<close>

definition minuteLabels :: "nat \<Rightarrow> string list" where
  "minuteLabels stepSize =
     map (\<lambda>i. padStart 2 ''0'' (toString (int (i * stepSize)))) [0..<60 div stepSize]"

definition calculateMinuteSteps :: "bool \<Rightarrow> TimeUnit \<Rightarrow> int \<Rightarrow> string list" where
  "calculateMinuteSteps enable precision cellWidth =
     (if \<not> enable \<or> precision \<noteq> Hour then []
      else
        (let minCellWidth = 16;
             possibleDivisions = cellWidth div minCellWidth
         in if possibleDivisions \<ge> 60 then minuteLabels 1
            else if possibleDivisions \<ge> 12 then minuteLabels 5
            else if possibleDivisions \<ge> 6 then minuteLabels 10
            else if possibleDivisions \<ge> 4 then minuteLabels 15
            else if possibleDivisions \<ge> 2 then minuteLabels 30
            else [''00'']))"

text \<open>The spec's wording of a label: two decimal digits.\<close>

definition twoDigits :: "nat \<Rightarrow> string" where
  "twoDigits n = [digit (n div 10), digit (n mod 10)]"

section \<open>Unit partitioner\<close>

text \<open>
  The two loops of \<open>timeaxisUnits\<close>. Each is a \<open>while\<close> loop on a cursor; a loop that
  does not end has the value \<open>None\<close>. The map \<open>lowerUnitsByStartTime\<close> of the source is
  written in the first loop and never read, and is left out.
\<close>

partial_function (option) lowerLoop ::
  "config \<Rightarrow> TimeUnit \<Rightarrow> int \<Rightarrow> Dayjs \<Rightarrow> TimeaxisUnit list \<Rightarrow> TimeaxisUnit list option" where
  "lowerLoop cfg precision zoom currentLower lowerUnits =
     (if isBefore currentLower (chartEnd cfg) then
        lowerLoop cfg precision zoom
          (add1 (getDayjsUnit (Base precision)) currentLower)
          (lowerUnits @
             [createTimeaxisUnit cfg currentLower (getDisplayFormat (Base precision))
                (toString (unitWidth zoom) @ ''px'')])
      else Some lowerUnits)"

definition unitsInPeriod :: "TimeUnit \<Rightarrow> Dayjs \<Rightarrow> Dayjs \<Rightarrow> int" where
  "unitsInPeriod precision effectiveStart effectiveEnd =
     (if precision = Day then \<lceil>diff effectiveEnd effectiveStart UDay\<rceil>
      else if precision = Month then \<lceil>diff effectiveEnd effectiveStart UMonth\<rceil>
      else if precision = Week then \<lceil>diff effectiveEnd effectiveStart UWeek\<rceil>
      else \<lceil>diff effectiveEnd effectiveStart UHour\<rceil>)"

partial_function (option) upperLoop ::
  "config \<Rightarrow> TimeUnit \<Rightarrow> int \<Rightarrow> Dayjs \<Rightarrow> TimeaxisUnit list \<Rightarrow> TimeaxisUnit list option" where
  "upperLoop cfg precision zoom currentUpper upperUnits =
     (if isBefore currentUpper (chartEnd cfg) then
        (let nextUpper = add1 (getDayjsUnit (upperPrecision precision)) currentUpper;
             effectiveStart =
               (if isBefore currentUpper (chartStart cfg) then chartStart cfg else currentUpper);
             effectiveEnd =
               (if isAfter nextUpper (chartEnd cfg) then chartEnd cfg else nextUpper);
             totalWidth = unitsInPeriod precision effectiveStart effectiveEnd * unitWidth zoom
         in upperLoop cfg precision zoom nextUpper
              (if totalWidth > 0
               then upperUnits @
                      [createTimeaxisUnit cfg currentUpper
                         (getDisplayFormat (upperPrecision precision))
                         (toString totalWidth @ ''px'')]
               else upperUnits))
      else Some upperUnits)"

record TimeaxisResult =
  upperUnits :: "TimeaxisUnit list"
  lowerUnits :: "TimeaxisUnit list"
  globalMinuteStep :: "string list"

text \<open>
  \<open>timeaxisUnits\<close>: each row is read from its store, or computed and stored; then the
  minute steps are computed and both stores are swept. It returns the result and the
  stores as it leaves them. \<open>now\<close> is the clock reading during the recomputation.
\<close>

definition lowerRow ::
  "config \<Rightarrow> int \<Rightarrow> TimeUnit \<Rightarrow> int \<Rightarrow> store \<Rightarrow> (TimeaxisUnit list \<times> store) option" where
  "lowerRow cfg now precision zoom cacheMap =
     (let lowerCacheKey = getCacheKey (chartStart cfg) (chartEnd cfg) (Base precision) zoom
      in case getFromCache now cacheMap lowerCacheKey of
           (Some us, cacheMap') \<Rightarrow> Some (us, cacheMap')
         | (None, cacheMap') \<Rightarrow>
             (case lowerLoop cfg precision zoom (chartStart cfg) [] of
                None \<Rightarrow> None
              | Some us \<Rightarrow> Some (us, setInCache now cacheMap' lowerCacheKey us)))"

definition upperRow ::
  "config \<Rightarrow> int \<Rightarrow> TimeUnit \<Rightarrow> int \<Rightarrow> store \<Rightarrow> (TimeaxisUnit list \<times> store) option" where
  "upperRow cfg now precision zoom cacheMap =
     (let upperCacheKey =
            getCacheKey (chartStart cfg) (chartEnd cfg) (upperPrecision precision) zoom
      in case getFromCache now cacheMap upperCacheKey of
           (Some us, cacheMap') \<Rightarrow> Some (us, cacheMap')
         | (None, cacheMap') \<Rightarrow>
             (case upperLoop cfg precision zoom
                     (startOf (getDayjsUnit (upperPrecision precision)) (chartStart cfg)) [] of
                None \<Rightarrow> None
              | Some us \<Rightarrow> Some (us, setInCache now cacheMap' upperCacheKey us)))"

definition timeaxisUnits ::
  "config \<Rightarrow> int \<Rightarrow> machine \<Rightarrow> TimeaxisCache \<Rightarrow> (TimeaxisResult \<times> TimeaxisCache) option" where
  "timeaxisUnits cfg now st cache =
     (case lowerRow cfg now (internalPrecision st) (zoomLevel st) (lower cache) of
        None \<Rightarrow> None
      | Some (lowerUs, lowerStore) \<Rightarrow>
          (case upperRow cfg now (internalPrecision st) (zoomLevel st) (upper cache) of
             None \<Rightarrow> None
           | Some (upperUs, upperStore) \<Rightarrow>
               (let minuteSteps =
                      calculateMinuteSteps (enableMinutes cfg) (internalPrecision st)
                        (unitWidth (zoomLevel st))
                in Some (\<lparr>upperUnits = upperUs, lowerUnits = lowerUs,
                            globalMinuteStep = minuteSteps\<rparr>,
                         cleanExpiredCache now \<lparr>lower = lowerStore, upper = upperStore\<rparr>))))"

definition emptyCache :: TimeaxisCache where
  "emptyCache = \<lparr>lower = Map.empty, upper = Map.empty\<rparr>"

declare toStringNat.simps [simp del]

declare formatCore.simps [simp del]

text \<open>
  For stating how the rows relate: the length in milliseconds of the unit by which the
  lower row steps, and of the unit in which the upper row counts (a month has no fixed
  length, and gets \<open>0\<close>); the rounded-up quotient that \<open>Math.ceil\<close> of a difference
  gives; and the cursors of the upper loop, which stand at midnight, and at the first of
  a month when the upper unit is the month.
\<close>

fun stepMillis :: "TimeUnit \<Rightarrow> int" where
  "stepMillis Hour = 3600000"
| "stepMillis Day = 86400000"
| "stepMillis Date = 86400000"
| "stepMillis Week = 604800000"
| "stepMillis Month = 0"

fun countMillis :: "TimeUnit \<Rightarrow> int" where
  "countMillis Hour = 3600000"
| "countMillis Day = 86400000"
| "countMillis Date = 3600000"
| "countMillis Week = 604800000"
| "countMillis Month = 0"

definition ceilDiv :: "int \<Rightarrow> int \<Rightarrow> int" where
  "ceilDiv a b = \<lceil>rat_of_int a / rat_of_int b\<rceil>"

definition aligned :: "ManipulateType \<Rightarrow> Dayjs \<Rightarrow> bool" where
  "aligned U c =
     (validDayjs c \<and> dHour c = 0 \<and> dMinute c = 0 \<and> dSecond c = 0 \<and> dMillisecond c = 0
      \<and> (U = UDay \<or> U = UMonth \<and> dDate c = 1))"

section \<open>Example values\<close>

definition sampleStore :: store where
  "sampleStore = Map.empty(''k'' \<mapsto> \<lparr>timestamp = 1000, units = []\<rparr>)"

text \<open>
  A date value on the hour; a configuration without holidays, with the formatter above
  and the Latin-1 runtime; the viewport from 2024-12-25 08:00 to 2024-12-27 23:00 put into
  a configuration, with the hours it spans and their labels; and the viewport from
  2024-12-01 00:00 to 2024-12-03 00:00.
\<close>

definition atHour :: "int \<Rightarrow> nat \<Rightarrow> nat \<Rightarrow> nat \<Rightarrow> Dayjs" where
  "atHour y m d h =
     \<lparr>dYear = y, dMonth = m, dDate = d, dHour = h, dMinute = 0, dSecond = 0, dMillisecond = 0\<rparr>"

definition plainConfig :: "Dayjs \<Rightarrow> Dayjs \<Rightarrow> config" where
  "plainConfig s e =
     \<lparr>chartStart = s, chartEnd = e, holidayHighlight = False, enableMinutes = False,
      getHolidayInfo = (\<lambda>d. None), formatDayjs = (\<lambda>d f. codes (formatCore d f)),
      toStringDayjs = (\<lambda>d. []), runtime = latin1\<rparr>"

definition scenarioHours :: "Dayjs list" where
  "scenarioHours =
     map (atHour 2024 11 25) [8, 9, 10, 11, 12, 13, 14, 15, 16, 17, 18, 19, 20, 21, 22, 23]
     @ map (atHour 2024 11 26)
         [0, 1, 2, 3, 4, 5, 6, 7, 8, 9, 10, 11, 12, 13, 14, 15, 16, 17, 18, 19, 20, 21, 22, 23]
     @ map (atHour 2024 11 27)
         [0, 1, 2, 3, 4, 5, 6, 7, 8, 9, 10, 11, 12, 13, 14, 15, 16, 17, 18, 19, 20, 21, 22]"

definition scenario :: "config \<Rightarrow> config" where
  "scenario cfg = cfg\<lparr>chartStart := atHour 2024 11 25 8, chartEnd := atHour 2024 11 27 23\<rparr>"

definition scenarioLabels :: "string list" where
  "scenarioLabels =
     [''08'', ''09'', ''10'', ''11'', ''12'', ''13'', ''14'', ''15'', ''16'', ''17'', ''18'', ''19'',
      ''20'', ''21'', ''22'', ''23'',
      ''00'', ''01'', ''02'', ''03'', ''04'', ''05'', ''06'', ''07'', ''08'', ''09'', ''10'', ''11'',
      ''12'', ''13'', ''14'', ''15'', ''16'', ''17'', ''18'', ''19'', ''20'', ''21'', ''22'', ''23'',
      ''00'', ''01'', ''02'', ''03'', ''04'', ''05'', ''06'', ''07'', ''08'', ''09'', ''10'', ''11'',
      ''12'', ''13'', ''14'', ''15'', ''16'', ''17'', ''18'', ''19'', ''20'', ''21'', ''22'']"

definition twoDays :: "config \<Rightarrow> config" where
  "twoDays cfg = cfg\<lparr>chartStart := atHour 2024 11 1 0, chartEnd := atHour 2024 11 3 0\<rparr>"

lemma indexOf_hierarchy [simp]:
  "indexOf precisionHierarchy Hour = 0"
  "indexOf precisionHierarchy Day = 1"
  "indexOf precisionHierarchy Week = 2"
  "indexOf precisionHierarchy Month = 3"
  "indexOf precisionHierarchy Date = -1"
  by (simp_all add: precisionHierarchy_def)

lemma getNextPrecision_simps [simp]:
  "getNextPrecision Hour = Day"
  "getNextPrecision Day = Week"
  "getNextPrecision Week = Month"
  "getNextPrecision Month = Month"
  "getNextPrecision Date = Hour"
  by (simp_all add: getNextPrecision_def) (simp_all add: precisionHierarchy_def)

section \<open>Properties of the precision state machine\<close>

lemma getPreviousPrecision_Date_floor:
  "getPreviousPrecision Date Hour = Hour"
  "getPreviousPrecision Date Day = Hour"
  "getPreviousPrecision Date Week = Day"
  "getPreviousPrecision Date Month = Week"
  "getPreviousPrecision Date Date = Date"
  by (simp_all add: getPreviousPrecision_def) (simp_all add: precisionHierarchy_def)

lemma zoom_bounds_adjust:
  assumes "MIN_ZOOM \<le> zoomLevel st" and "zoomLevel st \<le> MAX_ZOOM"
  shows "MIN_ZOOM \<le> zoomLevel (adjustZoomAndPrecision b st)
       \<and> zoomLevel (adjustZoomAndPrecision b st) \<le> MAX_ZOOM"
  using assms
  by (auto simp: adjustZoomAndPrecision_def Let_def MIN_ZOOM_def MAX_ZOOM_def)

lemma zoom_bounds_setConfig:
  assumes "MIN_ZOOM \<le> zoomLevel st" and "zoomLevel st \<le> MAX_ZOOM"
  shows "MIN_ZOOM \<le> zoomLevel (setConfigPrecision p st)
       \<and> zoomLevel (setConfigPrecision p st) \<le> MAX_ZOOM"
  using assms
  by (simp add: setConfigPrecision_def watchConfigPrecision_def
        MIN_ZOOM_def MAX_ZOOM_def DEFAULT_ZOOM_def)

lemma zoom_bounds_step:
  assumes "MIN_ZOOM \<le> zoomLevel st" and "zoomLevel st \<le> MAX_ZOOM"
  shows "MIN_ZOOM \<le> zoomLevel (step st e) \<and> zoomLevel (step st e) \<le> MAX_ZOOM"
  using assms by (cases e) (simp_all add: zoom_bounds_adjust zoom_bounds_setConfig)

lemma zoom_bounds_foldl:
  assumes "MIN_ZOOM \<le> zoomLevel st" and "zoomLevel st \<le> MAX_ZOOM"
  shows "MIN_ZOOM \<le> zoomLevel (foldl step st evs)
       \<and> zoomLevel (foldl step st evs) \<le> MAX_ZOOM"
  using assms
proof (induction evs arbitrary: st)
  case Nil
  then show ?case by simp
next
  case (Cons e evs)
  have "MIN_ZOOM \<le> zoomLevel (step st e) \<and> zoomLevel (step st e) \<le> MAX_ZOOM"
    using Cons.prems by (rule zoom_bounds_step)
  then show ?case using Cons.IH [of "step st e"] by simp
qed

text \<open>
  C3. At internal precision \<open>day\<close> and zoom \<open>MIN_ZOOM = 1\<close>, the zoom mutator called
  with \<open>increase = false\<close> moves the internal precision to \<open>week\<close> and sets the zoom
  to \<open>MAX_ZOOM = 10\<close>; at internal precision \<open>month\<close> and zoom \<open>MIN_ZOOM\<close> the same
  call changes nothing. Both hold whatever the configured precision is.
\<close>

theorem C3_zoom_out_boundary:
  "adjustZoomAndPrecision False
     \<lparr>configPrecision = c, internalPrecision = Day, zoomLevel = 1\<rparr>
   = \<lparr>configPrecision = c, internalPrecision = Week, zoomLevel = 10\<rparr>
   \<and> adjustZoomAndPrecision False
     \<lparr>configPrecision = c, internalPrecision = Month, zoomLevel = 1\<rparr>
   = \<lparr>configPrecision = c, internalPrecision = Month, zoomLevel = 1\<rparr>
   \<and> MIN_ZOOM = 1 \<and> MAX_ZOOM = 10"
  by (simp add: adjustZoomAndPrecision_def MIN_ZOOM_def MAX_ZOOM_def)

text \<open>
  C10. \<open>date\<close> does not occur in the precision hierarchy, so its index is \<open>-1\<close> and
  the next coarser precision computed for it is the first element of the hierarchy,
  \<open>hour\<close>: at internal precision \<open>date\<close> and zoom \<open>MIN_ZOOM = 1\<close>, the zoom mutator
  called with \<open>increase = false\<close> sets the internal precision to \<open>hour\<close> and the zoom
  to \<open>MAX_ZOOM = 10\<close>.
\<close>

theorem C10_zoom_out_from_date:
  "adjustZoomAndPrecision False
     \<lparr>configPrecision = c, internalPrecision = Date, zoomLevel = 1\<rparr>
   = \<lparr>configPrecision = c, internalPrecision = Hour, zoomLevel = 10\<rparr>
   \<and> Date \<notin> set precisionHierarchy
   \<and> indexOf precisionHierarchy Date = -1
   \<and> getNextPrecision Date = hd precisionHierarchy
   \<and> MIN_ZOOM = 1 \<and> MAX_ZOOM = 10"
  by (simp add: adjustZoomAndPrecision_def MIN_ZOOM_def MAX_ZOOM_def)
     (simp add: precisionHierarchy_def)

text \<open>
  C9. The zoom level is an integer between \<open>MIN_ZOOM = 1\<close> and \<open>MAX_ZOOM = 10\<close>: it
  starts at the default \<open>3\<close> and stays within these bounds after every finite sequence
  of zoom mutator calls and changes of the configured precision, and a change of the
  configured precision puts it back to \<open>DEFAULT_ZOOM = 3\<close>.
\<close>

theorem C9_zoom_level_bounded:
  "zoomLevel (initial p) = 3
   \<and> MIN_ZOOM \<le> zoomLevel (run (initial p) evs)
   \<and> zoomLevel (run (initial p) evs) \<le> MAX_ZOOM
   \<and> MIN_ZOOM = 1 \<and> MAX_ZOOM = 10 \<and> DEFAULT_ZOOM = 3
   \<and> zoomLevel (watchConfigPrecision st) = DEFAULT_ZOOM"
proof -
  have a: "MIN_ZOOM \<le> zoomLevel (initial p)" and b: "zoomLevel (initial p) \<le> MAX_ZOOM"
    by (simp_all add: initial_def MIN_ZOOM_def MAX_ZOOM_def DEFAULT_ZOOM_def)
  have "MIN_ZOOM \<le> zoomLevel (foldl step (initial p) evs)
      \<and> zoomLevel (foldl step (initial p) evs) \<le> MAX_ZOOM"
    using a b by (rule zoom_bounds_foldl)
  then show ?thesis
    by (simp add: run_def initial_def MIN_ZOOM_def MAX_ZOOM_def DEFAULT_ZOOM_def
          watchConfigPrecision_def)
qed

lemma inHierarchy_simps [simp]:
  "inHierarchy Hour" "inHierarchy Day" "inHierarchy Week" "inHierarchy Month" "\<not> inHierarchy Date"
  by (simp_all add: inHierarchy_def precisionHierarchy_def)

lemma getPreviousPrecision_floor:
  assumes "inHierarchy c" and "inHierarchy p" and "fineness c \<le> fineness p"
  shows "inHierarchy (getPreviousPrecision c p)
       \<and> fineness c \<le> fineness (getPreviousPrecision c p)"
  using assms
  by (cases c; cases p)
     (simp_all add: getPreviousPrecision_def, simp_all add: precisionHierarchy_def)

lemma getNextPrecision_floor:
  assumes "inHierarchy p"
  shows "inHierarchy (getNextPrecision p) \<and> fineness p \<le> fineness (getNextPrecision p)"
  using assms by (cases p) simp_all

lemma floorRespected_adjust:
  assumes "floorRespected st"
  shows "floorRespected (adjustZoomAndPrecision b st)"
proof -
  from assms have c: "inHierarchy (configPrecision st)" and p: "inHierarchy (internalPrecision st)"
    and le: "fineness (configPrecision st) \<le> fineness (internalPrecision st)"
    by (simp_all add: floorRespected_def)
  note prev = getPreviousPrecision_floor [OF c p le]
  note nxt = getNextPrecision_floor [OF p]
  show ?thesis
    using c p le prev nxt
    by (auto simp: floorRespected_def adjustZoomAndPrecision_def Let_def)
qed

lemma floorRespected_zooms:
  assumes "floorRespected st"
  shows "floorRespected (zooms st bs)"
  using assms unfolding zooms_def
  by (induction bs arbitrary: st) (simp_all add: floorRespected_adjust)

lemma configPrecision_zooms: "configPrecision (zooms st bs) = configPrecision st"
  unfolding zooms_def
  by (induction bs arbitrary: st) (simp_all add: adjustZoomAndPrecision_def Let_def)

lemma floor_in_hierarchy:
  assumes "inHierarchy p"
  shows "fineness p \<le> fineness (internalPrecision (zooms (initial p) bs))"
proof -
  have "floorRespected (initial p)" using assms by (simp add: floorRespected_def initial_def)
  then have "floorRespected (zooms (initial p) bs)" by (rule floorRespected_zooms)
  then show ?thesis by (simp add: floorRespected_def configPrecision_zooms) (simp add: initial_def)
qed

text \<open>
  C4. The configured precision is a floor: the internal precision should never be
  strictly finer than it. For a configured precision of the hierarchy that holds in every
  state reached by zoom calls from the reset state (\<open>floor_in_hierarchy\<close>). For the
  configured precision \<open>date\<close> it does not: \<open>date\<close> has index \<open>-1\<close> in the
  hierarchy, and three zoom-out calls from the reset state reach \<open>hour\<close>, which is
  strictly finer than \<open>date\<close>.
\<close>

theorem C4_floor_date_not_respected:
  "zooms (initial Date) [False, False, False]
     = \<lparr>configPrecision = Date, internalPrecision = Hour, zoomLevel = 10\<rparr>
   \<and> fineness Hour < fineness Date
   \<and> internalPrecision (initial Date) = Date \<and> zoomLevel (initial Date) = DEFAULT_ZOOM"
  by (simp add: zooms_def initial_def adjustZoomAndPrecision_def DEFAULT_ZOOM_def MIN_ZOOM_def
        MAX_ZOOM_def)

section \<open>Properties of the minute-step calculator\<close>

lemma digit_0: "digit 0 = CHR ''0''"
  by (simp add: digit_def)

lemma toStringNat_small: "n < 10 \<Longrightarrow> toStringNat n = [digit n]"
  by (subst toStringNat.simps) simp

lemma toStringNat_two:
  "10 \<le> n \<Longrightarrow> n < 100 \<Longrightarrow> toStringNat n = [digit (n div 10), digit (n mod 10)]"
  by (subst toStringNat.simps) (simp add: toStringNat_small)

lemma pad_two_digits:
  assumes "n < 100"
  shows "padStart 2 ''0'' (toString (int n)) = twoDigits n"
proof (cases "n < 10")
  case True
  then show ?thesis
    by (simp add: padStart_def toString_def toStringNat_small twoDigits_def digit_0)
next
  case False
  then show ?thesis using assms
    by (simp add: padStart_def toString_def toStringNat_two twoDigits_def)
qed

lemma minuteLabels_twoDigits:
  assumes "0 < k" "k \<le> 60"
  shows "minuteLabels k = map (\<lambda>i. twoDigits (i * k)) [0..<60 div k]"
proof -
  have "i * k < 100" if "i < 60 div k" for i
  proof -
    have "i * k \<le> (60 div k) * k" using that by simp
    also have "\<dots> \<le> 60" by simp
    finally show ?thesis by simp
  qed
  then show ?thesis by (simp add: minuteLabels_def pad_two_digits flip: of_nat_mult)
qed

lemma labels5:
  "minuteLabels 5 =
     [''00'', ''05'', ''10'', ''15'', ''20'', ''25'', ''30'', ''35'', ''40'', ''45'', ''50'', ''55'']"
  by code_simp

lemma labels10: "minuteLabels 10 = [''00'', ''10'', ''20'', ''30'', ''40'', ''50'']"
  by code_simp

lemma labels15: "minuteLabels 15 = [''00'', ''15'', ''30'', ''45'']"
  by code_simp

lemma labels30: "minuteLabels 30 = [''00'', ''30'']"
  by code_simp

lemma labels1: "minuteLabels (Suc 0) = map twoDigits [0..<60]"
  using minuteLabels_twoDigits [of 1] by simp

text \<open>
  C7. The minute-step calculator returns the empty sequence unless minute display is
  enabled and the precision is \<open>hour\<close>. Otherwise, with
  \<open>possibleDivisions = floor(cellWidth / 16)\<close>, the step is 1 from 60 divisions on, 5 from
  12 on, 10 from 6 on, 15 from 4 on, 30 from 2 on, and below that the result is the single
  label \<open>00\<close>; the result is the ascending list of two-digit, zero-padded minute labels
  spaced by the step over one hour. A cell width of 240 pixels gives 15 divisions, step 5
  and the twelve labels from \<open>00\<close> to \<open>55\<close>.
\<close>

theorem C7_minute_steps:
  "calculateMinuteSteps enable precision cellWidth =
     (if enable \<and> precision = Hour then
        (if 60 \<le> cellWidth div 16 then map twoDigits [0..<60]
         else if 12 \<le> cellWidth div 16
           then [''00'', ''05'', ''10'', ''15'', ''20'', ''25'', ''30'', ''35'', ''40'', ''45'',
                 ''50'', ''55'']
         else if 6 \<le> cellWidth div 16 then [''00'', ''10'', ''20'', ''30'', ''40'', ''50'']
         else if 4 \<le> cellWidth div 16 then [''00'', ''15'', ''30'', ''45'']
         else if 2 \<le> cellWidth div 16 then [''00'', ''30'']
         else [''00''])
      else [])
   \<and> calculateMinuteSteps True Hour 240 =
       [''00'', ''05'', ''10'', ''15'', ''20'', ''25'', ''30'', ''35'', ''40'', ''45'', ''50'', ''55'']"
  by (simp add: calculateMinuteSteps_def Let_def labels1 labels5 labels10 labels15 labels30)

theorem C7_minute_steps_witness:
  "calculateMinuteSteps True Hour 72 = [''00'', ''15'', ''30'', ''45'']
   \<and> length (calculateMinuteSteps True Hour 240) = 12
   \<and> calculateMinuteSteps True Hour 24 = [''00'']
   \<and> calculateMinuteSteps False Hour 240 = []
   \<and> calculateMinuteSteps True Day 240 = []"
  using C7_minute_steps [of True Hour 72] C7_minute_steps [of True Hour 24]
    C7_minute_steps [of False Hour 240] C7_minute_steps [of True Day 240]
  by simp

section \<open>Properties of the cache\<close>

text \<open>
  C5. Reading a cache store: an absent key is a miss and leaves the store as it was; an
  entry whose age \<open>now - timestamp\<close> exceeds the TTL of 300000 ms is a miss and is
  deleted from the store; an entry within the TTL is returned as stored, and the store
  is left as it was.
\<close>

theorem C5_cache_read:
  "(cacheMap key = None \<longrightarrow> getFromCache now cacheMap key = (None, cacheMap))
   \<and> (\<forall>entry. cacheMap key = Some entry \<and> now - timestamp entry > 300000 \<longrightarrow>
         getFromCache now cacheMap key = (None, cacheMap(key := None))
         \<and> key \<notin> dom (snd (getFromCache now cacheMap key)))
   \<and> (\<forall>entry. cacheMap key = Some entry \<and> now - timestamp entry \<le> 300000 \<longrightarrow>
         getFromCache now cacheMap key = (Some (units entry), cacheMap))
   \<and> CACHE_TTL = 300000"
  by (simp add: getFromCache_def CACHE_TTL_def)

theorem C5_cache_read_witness:
  "getFromCache 301001 sampleStore ''k'' = (None, sampleStore(''k'' := None))
   \<and> ''k'' \<notin> dom (snd (getFromCache 301001 sampleStore ''k''))
   \<and> getFromCache 301000 sampleStore ''k'' = (Some [], sampleStore)
   \<and> getFromCache 301001 sampleStore ''j'' = (None, sampleStore)"
proof -
  have e: "sampleStore ''k'' = Some \<lparr>timestamp = 1000, units = []\<rparr>"
    and n: "sampleStore ''j'' = None"
    by (simp_all add: sampleStore_def)
  show ?thesis
    using C5_cache_read [of sampleStore "''k''" 301001] C5_cache_read [of sampleStore "''k''" 301000]
      C5_cache_read [of sampleStore "''j''" 301001] e n
    by simp
qed

section \<open>Properties of the capitalisation\<close>

lemma concat_splitWords: "concat (splitWords word s) = word @ s"
  by (induction word s rule: splitWords.induct) simp_all

lemma capFirst_snoc: "word \<noteq> [] \<Longrightarrow> capFirst U (word @ [c]) = capFirst U word @ [c]"
  by (cases word) (simp_all add: capFirst_def)

lemma capFirst_boundary:
  assumes "\<forall>c. isBoundary c \<longrightarrow> \<not> isLetter U c" and "isBoundary c"
  shows "capFirst U (c # cs) = c # cs"
  using assms by (simp add: capFirst_def)

lemma scan_spaces:
  "capitalizeScan U True cs = takeWhile isSpace cs @ capitalizeScan U True (dropWhile isSpace cs)"
  by (induction cs) (simp_all add: isBoundary_def)

lemma scan_splitWords:
  assumes sep: "\<forall>c. isBoundary c \<longrightarrow> \<not> isLetter U c"
  shows "concat (map (capFirst U) (splitWords word s)) =
           (if word = [] then capitalizeScan U True s
            else capFirst U word @ capitalizeScan U False s)"
proof (induction word s rule: splitWords.induct)
  case (1 word)
  then show ?case by (simp add: capFirst_def)
next
  case (2 word c cs)
  show ?case
  proof (cases "isSpace c")
    case True
    then have b: "isBoundary c" by (simp add: isBoundary_def)
    have e: "capFirst U (c # takeWhile isSpace cs) = c # takeWhile isSpace cs"
      using sep b by (rule capFirst_boundary)
    have nil: "capFirst U [] = []" by (simp add: capFirst_def)
    show ?thesis
      using True b e 2(1) [OF True] scan_spaces [of U cs]
      by (simp add: nil)
  next
    case False
    show ?thesis
    proof (cases "c = 0x2E \<or> c = 0x2C")
      case True
      then have b: "isBoundary c" by (auto simp: isBoundary_def)
      have e: "capFirst U [c] = [c]" using sep b by (rule capFirst_boundary)
      have nil: "capFirst U [] = []" by (simp add: capFirst_def)
      show ?thesis
        using False True b e 2(2) [OF False True]
        by (simp add: nil)
    next
      case nb: False
      then have b: "\<not> isBoundary c" using False by (simp add: isBoundary_def)
      show ?thesis
      proof (cases "word = []")
        case True
        then show ?thesis
          using False nb b 2(3) [OF False nb] by (simp add: capFirst_def)
      next
        case wne: False
        then show ?thesis
          using False nb b 2(3) [OF False nb] by (simp add: capFirst_snoc)
      qed
    qed
  qed
qed

lemma capitalizeString_nfd:
  assumes "normalizeNFD U w = w"
  shows "capitalizeString U w = capFirst U w"
  using assms by (simp add: capitalizeString_def capFirst_def split: list.splits)

lemma capitalizeWords_fragments:
  assumes "\<forall>w \<in> set (splitWords [] s). startsWithLetter U w \<longrightarrow> normalizeNFD U w = w"
  shows "capitalizeWords U s = concat (map (capFirst U) (splitWords [] s))"
proof -
  have eq: "(if startsWithLetter U w then capitalizeString U w else w) = capFirst U w"
    if "w \<in> set (splitWords [] s)" for w
  proof (cases "startsWithLetter U w")
    case True
    with assms that have "normalizeNFD U w = w" by blast
    then show ?thesis using True by (simp add: capitalizeString_nfd)
  next
    case False
    then show ?thesis by (simp add: startsWithLetter_def capFirst_def split: list.splits)
  qed
  have "map (\<lambda>w. if startsWithLetter U w then capitalizeString U w else w) (splitWords [] s)
      = map (capFirst U) (splitWords [] s)"
    by (rule map_cong [OF refl]) (rule eq)
  then show ?thesis by (simp only: capitalizeWords_def)
qed

lemma capitalizeWords_decomposed:
  "capitalizeWords U s =
     concat (map (\<lambda>w. if startsWithLetter U w then capFirst U (normalizeNFD U w) else w)
               (splitWords [] s))"
proof -
  have "(if startsWithLetter U w then capitalizeString U w else w)
      = (if startsWithLetter U w then capFirst U (normalizeNFD U w) else w)" for w
    by (cases w) (simp_all add: startsWithLetter_def capitalizeString_def capFirst_def)
  then show ?thesis by (simp only: capitalizeWords_def)
qed

text \<open>
  C6. \<open>capitalizeWords\<close> splits at white space, periods and commas and keeps every
  boundary character; the fragments put together again are the input. A fragment that
  starts with a letter is replaced by its canonical decomposition with the first letter
  upper-cased; every other fragment is left as it is. So when the fragments that start
  with a letter are already in decomposed form, as every ASCII text is, and no boundary
  character is a letter, the result is the input with the first letter of each word
  upper-cased and nothing else changed: digits, punctuation and the later characters of a
  word stay. In particular \<open>dicembre 2024\<close> becomes \<open>Dicembre 2024\<close> and
  \<open>lun. 25\<close> becomes \<open>Lun. 25\<close>.
\<close>

theorem C6_capitalizeWords:
  assumes "\<forall>c. isBoundary c \<longrightarrow> \<not> isLetter U c"
    and "\<forall>w \<in> set (splitWords [] s). startsWithLetter U w \<longrightarrow> normalizeNFD U w = w"
  shows "capitalizeWords U s = capitalizeScan U True s
       \<and> concat (splitWords [] s) = s
       \<and> capitalizeWords U s =
           concat (map (\<lambda>w. if startsWithLetter U w then capFirst U (normalizeNFD U w) else w)
                     (splitWords [] s))"
  using scan_splitWords [OF assms(1), of "[]" s] capitalizeWords_fragments [OF assms(2)]
    capitalizeWords_decomposed [of U s]
  by (simp add: concat_splitWords)

lemma latin1_boundary: "\<forall>c. isBoundary c \<longrightarrow> \<not> isLetter latin1 c"
  by (auto simp: isBoundary_def isSpace_def latin1_def latin1Letter_def)

lemma latin1_nfd_ascii:
  assumes "\<forall>c \<in> set w. c < 0xC0"
  shows "normalizeNFD latin1 w = w"
  using assms by (induction w) (simp_all add: latin1_def latin1Decompose_def)

lemma splitWords_fragment_subset:
  assumes "w \<in> set (splitWords [] s)"
  shows "set w \<subseteq> set s"
proof -
  have "set w \<subseteq> set (concat (splitWords [] s))" using assms by auto
  then show ?thesis by (simp add: concat_splitWords)
qed

lemma capitalizeWords_latin1_ascii:
  assumes "\<forall>c \<in> set s. c < 0xC0"
  shows "capitalizeWords latin1 s = capitalizeScan latin1 True s"
proof -
  have "normalizeNFD latin1 w = w" if "w \<in> set (splitWords [] s)" for w
  proof -
    have "set w \<subseteq> set s" using that by (rule splitWords_fragment_subset)
    with assms have "\<forall>c \<in> set w. c < 0xC0" by blast
    then show ?thesis by (rule latin1_nfd_ascii)
  qed
  then have f: "\<forall>w \<in> set (splitWords [] s).
                  startsWithLetter latin1 w \<longrightarrow> normalizeNFD latin1 w = w"
    by blast
  from scan_splitWords [OF latin1_boundary, of "[]" s] capitalizeWords_fragments [OF f]
  show ?thesis by simp
qed

lemmas latin1_eval = capitalizeWords_def codes_def isSpace_def startsWithLetter_def
  capitalizeString_def latin1_def latin1Letter_def latin1Upper_def latin1Decompose_def
  latin1Marks_def isBoundary_def

lemma ex1: "capitalizeWords latin1 (codes ''dicembre 2024'') = codes ''Dicembre 2024''"
  by (simp add: latin1_eval)

lemma ex2: "capitalizeWords latin1 (codes ''lun. 25'') = codes ''Lun. 25''"
  by (simp add: latin1_eval)

theorem C6_capitalizeWords_witness:
  "capitalizeWords latin1 (codes ''lun. 25'') = capitalizeScan latin1 True (codes ''lun. 25'')
   \<and> capitalizeWords latin1 (codes ''lun. 25'') = codes ''Lun. 25''
   \<and> capitalizeWords latin1 (codes ''dicembre 2024'') = codes ''Dicembre 2024''"
proof -
  have f: "\<forall>w \<in> set (splitWords [] (codes ''lun. 25'')).
             startsWithLetter latin1 w \<longrightarrow> normalizeNFD latin1 w = w"
    by (simp add: latin1_eval)
  show ?thesis
    using C6_capitalizeWords [OF latin1_boundary f] ex1 ex2 by simp
qed

text \<open>
  C6 without the condition on decomposed form fails: a precomposed letter after the first
  letter of a word does not stay. The French month name \<open>f\<close>, \<open>U+00E9\<close>,
  \<open>vrier\<close> becomes \<open>F\<close>, \<open>U+0065 U+0301\<close>, \<open>vrier\<close>, because the whole fragment
  is decomposed and never composed again; only the first letter should have changed.
\<close>

theorem C6_decomposition_counterexample:
  "capitalizeWords latin1 [0x66, 0xE9, 0x76, 0x72, 0x69, 0x65, 0x72]
     = [0x46, 0x65, 0x301, 0x76, 0x72, 0x69, 0x65, 0x72]
   \<and> capitalizeScan latin1 True [0x66, 0xE9, 0x76, 0x72, 0x69, 0x65, 0x72]
     = [0x46, 0xE9, 0x76, 0x72, 0x69, 0x65, 0x72]
   \<and> capitalizeWords latin1 [0x66, 0xE9, 0x76, 0x72, 0x69, 0x65, 0x72]
       \<noteq> capitalizeScan latin1 True [0x66, 0xE9, 0x76, 0x72, 0x69, 0x65, 0x72]"
  by (simp add: latin1_eval)

section \<open>Properties of the date values\<close>

lemma div_step:
  fixes n k :: int
  assumes "0 < k"
  shows "(n + 1) div k = n div k + (if (n + 1) mod k = 0 then 1 else 0)"
proof -
  define q where "q = n div k"
  define r where "r = n mod k"
  have n: "n = k * q + r" and r0: "0 \<le> r" and rk: "r < k"
    using assms by (simp_all add: q_def r_def)
  show ?thesis
  proof (cases "r = k - 1")
    case True
    then have e: "n + 1 = k * (q + 1) + 0" using n by (simp add: algebra_simps)
    have d: "(n + 1) div k = q + 1" using e assms by (intro int_div_pos_eq [of _ _ _ 0]) simp_all
    have m: "(n + 1) mod k = 0" using e assms by (intro int_mod_pos_eq [of _ _ "q + 1"]) simp_all
    show ?thesis using d m by (simp add: q_def)
  next
    case False
    then have r1: "r + 1 < k" using rk by simp
    have e: "n + 1 = k * q + (r + 1)" using n by simp
    have d: "(n + 1) div k = q" using e r0 r1 by (intro int_div_pos_eq [of _ _ _ "r + 1"]) simp_all
    have m: "(n + 1) mod k = r + 1" using e r0 r1 by (intro int_mod_pos_eq [of _ _ q]) simp_all
    show ?thesis using d m r0 by (simp add: q_def)
  qed
qed

lemma mod_shift: "(y - c) mod k = 0 \<longleftrightarrow> y mod k = 0" if "c mod k = 0" for y c k :: int
  using that by (metis diff_zero mod_diff_right_eq mod_0 mod_diff_eq)

lemma dayFromYear_Suc: "dayFromYear (y + 1) = dayFromYear y + int (daysInYear y)"
proof -
  have a: "(y + 1 - 1969) div 4 = (y - 1969) div 4 + (if y mod 4 = 0 then 1 else 0)"
  proof -
    have "(y - 1969 + 1) div 4 = (y - 1969) div 4 + (if (y - 1969 + 1) mod 4 = 0 then 1 else 0)"
      by (rule div_step) simp
    moreover have "y - 1969 + 1 = y - 1968" by simp
    moreover have "(y - 1968) mod 4 = 0 \<longleftrightarrow> y mod 4 = 0" by (rule mod_shift) simp
    moreover have "y + 1 - 1969 = y - 1968" by simp
    ultimately show ?thesis by simp
  qed
  have b: "(y + 1 - 1901) div 100 = (y - 1901) div 100 + (if y mod 100 = 0 then 1 else 0)"
  proof -
    have "(y - 1901 + 1) div 100
        = (y - 1901) div 100 + (if (y - 1901 + 1) mod 100 = 0 then 1 else 0)"
      by (rule div_step) simp
    moreover have "y - 1901 + 1 = y - 1900" by simp
    moreover have "(y - 1900) mod 100 = 0 \<longleftrightarrow> y mod 100 = 0" by (rule mod_shift) simp
    moreover have "y + 1 - 1901 = y - 1900" by simp
    ultimately show ?thesis by simp
  qed
  have c: "(y + 1 - 1601) div 400 = (y - 1601) div 400 + (if y mod 400 = 0 then 1 else 0)"
  proof -
    have "(y - 1601 + 1) div 400
        = (y - 1601) div 400 + (if (y - 1601 + 1) mod 400 = 0 then 1 else 0)"
      by (rule div_step) simp
    moreover have "y - 1601 + 1 = y - 1600" by simp
    moreover have "(y - 1600) mod 400 = 0 \<longleftrightarrow> y mod 400 = 0" by (rule mod_shift) simp
    moreover have "y + 1 - 1601 = y - 1600" by simp
    ultimately show ?thesis by simp
  qed
  have d4: "y mod 4 = 0" if "y mod 100 = 0"
  proof -
    have "(4::int) dvd 100" by simp
    moreover have "100 dvd y" using that by (simp add: dvd_eq_mod_eq_0)
    ultimately have "4 dvd y" by (rule dvd_trans)
    then show ?thesis by (simp add: dvd_eq_mod_eq_0)
  qed
  have d100: "y mod 100 = 0" if "y mod 400 = 0"
  proof -
    have "(100::int) dvd 400" by simp
    moreover have "400 dvd y" using that by (simp add: dvd_eq_mod_eq_0)
    ultimately have "100 dvd y" by (rule dvd_trans)
    then show ?thesis by (simp add: dvd_eq_mod_eq_0)
  qed
  show ?thesis
    unfolding dayFromYear_def daysInYear_def isLeapYear_def a b c
    using d4 d100 by auto
qed

lemma upt_12: "[0..<12] = [0, 1, 2, 3, 4, 5, 6, 7, 8, 9, 10, 11::nat]"
  by code_simp

lemma upt_11: "[0..<11] = [0, 1, 2, 3, 4, 5, 6, 7, 8, 9, 10::nat]"
  by code_simp

lemma year_sum: "sum_list (map (daysInMonth y) [0..<12]) = daysInYear y"
  by (simp add: upt_12 daysInMonth_def daysInYear_def)

lemma months_before_December: "sum_list (map (daysInMonth y) [0..<11]) + 31 = daysInYear y"
  by (simp add: upt_11 daysInMonth_def daysInYear_def)

lemma sum_upt_mono:
  fixes f :: "nat \<Rightarrow> nat"
  assumes "m \<le> n"
  shows "sum_list (map f [0..<m]) \<le> sum_list (map f [0..<n])"
  using assms
proof (induction n)
  case 0
  then show ?case by simp
next
  case (Suc n)
  then show ?case by (cases "m = Suc n") auto
qed

lemma months_within_year:
  assumes "m < 12"
  shows "sum_list (map (daysInMonth y) [0..<m]) + daysInMonth y m \<le> daysInYear y"
proof -
  have "sum_list (map (daysInMonth y) [0..<Suc m]) \<le> sum_list (map (daysInMonth y) [0..<12])"
    using assms by (intro sum_upt_mono) simp
  then show ?thesis by (simp add: year_sum)
qed

lemma dayNumber_nextDay:
  assumes "validDayjs d"
  shows "dayNumber (nextDay d) = dayNumber d + 1"
proof (cases "dDate d < daysInMonth (dYear d) (dMonth d)")
  case True
  then show ?thesis by (simp add: nextDay_def dayNumber_def)
next
  case False
  with assms have full: "dDate d = daysInMonth (dYear d) (dMonth d)"
    by (simp add: validDayjs_def)
  show ?thesis
  proof (cases "dMonth d < 11")
    case True
    then show ?thesis using False full by (simp add: nextDay_def dayNumber_def)
  next
    case nm: False
    with assms have m: "dMonth d = 11" by (simp add: validDayjs_def)
    have d31: "dDate d = 31" using full m by (simp add: daysInMonth_def)
    show ?thesis
      using False nm m d31 months_before_December [of "dYear d"]
      by (simp add: nextDay_def dayNumber_def dayFromYear_Suc)
  qed
qed

lemma valueOf_bounds:
  assumes "validDayjs d"
  shows "dayNumber d * 86400000 \<le> valueOf d" and "valueOf d < (dayNumber d + 1) * 86400000"
  using assms by (simp_all add: valueOf_def validDayjs_def)

lemma valueOf_midnight:
  assumes "dHour d = 0" "dMinute d = 0" "dSecond d = 0" "dMillisecond d = 0"
  shows "valueOf d = dayNumber d * 86400000"
  using assms by (simp add: valueOf_def)

lemma startOf_midnight:
  "u \<in> {UDay, UMonth, UYear} \<Longrightarrow> valueOf (startOf u d) = dayNumber (startOf u d) * 86400000"
  by (auto simp: startOfDay_def intro!: valueOf_midnight)

lemma period_end_Day:
  assumes "validDayjs s"
  shows "valueOf s < valueOf (add1 UDay (startOf UDay s))"
proof -
  let ?c = "startOfDay s"
  have v: "validDayjs ?c" using assms by (simp add: validDayjs_def startOfDay_def)
  have n: "dayNumber ?c = dayNumber s" by (simp add: dayNumber_def startOfDay_def)
  have "valueOf (nextDay ?c) = dayNumber (nextDay ?c) * 86400000"
    by (rule valueOf_midnight) (simp_all add: nextDay_def startOfDay_def)
  also have "\<dots> = (dayNumber s + 1) * 86400000"
    using dayNumber_nextDay [OF v] n by simp
  finally show ?thesis using valueOf_bounds(2) [OF assms] by simp
qed

lemma addMonths_1_first:
  assumes "dMonth d < 12" and "dDate d = 1"
  shows "dayNumber (addMonths 1 d) = dayNumber d + int (daysInMonth (dYear d) (dMonth d))"
proof (cases "dMonth d < 11")
  case True
  then have t: "(int (dMonth d) + 1) div 12 = 0" "(int (dMonth d) + 1) mod 12 = int (dMonth d) + 1"
    by simp_all
  have m: "nat (int (dMonth d) + 1) = Suc (dMonth d)" by simp
  have one: "min (Suc 0) (daysInMonth y k) = Suc 0" for y k by (simp add: daysInMonth_def)
  show ?thesis
    using assms(2) by (simp add: addMonths_def Let_def t m dayNumber_def one)
next
  case False
  with assms have m: "dMonth d = 11" by simp
  have one: "min (Suc 0) (daysInMonth y k) = Suc 0" for y k by (simp add: daysInMonth_def)
  have dec: "daysInMonth y 11 = 31" for y by (simp add: daysInMonth_def)
  show ?thesis
    using assms(2) m months_before_December [of "dYear d"]
    by (simp add: addMonths_def Let_def dayNumber_def one dayFromYear_Suc dec)
qed

lemma period_end_Month:
  assumes "validDayjs s"
  shows "valueOf s < valueOf (add1 UMonth (startOf UMonth s))"
proof -
  let ?c = "startOfDay (s\<lparr>dDate := 1\<rparr>)"
  have m: "dMonth ?c < 12" and d: "dDate ?c = 1"
    using assms by (simp_all add: validDayjs_def startOfDay_def)
  have n: "dayNumber ?c + int (dDate s) - 1 = dayNumber s"
    by (simp add: dayNumber_def startOfDay_def)
  have le: "dDate s \<le> daysInMonth (dYear s) (dMonth s)" using assms by (simp add: validDayjs_def)
  have "valueOf (addMonths 1 ?c) = dayNumber (addMonths 1 ?c) * 86400000"
    by (rule valueOf_midnight) (simp_all add: addMonths_def Let_def startOfDay_def)
  also have "dayNumber (addMonths 1 ?c) = dayNumber ?c + int (daysInMonth (dYear s) (dMonth s))"
    using addMonths_1_first [OF m d] by (simp add: startOfDay_def)
  finally have e: "valueOf (addMonths 1 ?c)
      = (dayNumber ?c + int (daysInMonth (dYear s) (dMonth s))) * 86400000" .
  have "dayNumber s + 1 \<le> dayNumber ?c + int (daysInMonth (dYear s) (dMonth s))"
    using n le by linarith
  then have "(dayNumber s + 1) * 86400000
      \<le> (dayNumber ?c + int (daysInMonth (dYear s) (dMonth s))) * 86400000"
    by simp
  then show ?thesis using valueOf_bounds(2) [OF assms] e by simp
qed

lemma period_end_Year:
  assumes "validDayjs s"
  shows "valueOf s < valueOf (add1 UYear (startOf UYear s))"
proof -
  let ?c = "startOfDay (s\<lparr>dMonth := 0, dDate := 1\<rparr>)"
  have one: "min (Suc 0) (daysInMonth y k) = Suc 0" for y k by (simp add: daysInMonth_def)
  have "valueOf (addMonths 12 ?c) = dayNumber (addMonths 12 ?c) * 86400000"
    by (rule valueOf_midnight) (simp_all add: addMonths_def Let_def startOfDay_def)
  also have "dayNumber (addMonths 12 ?c) = dayFromYear (dYear s) + int (daysInYear (dYear s))"
    by (simp add: addMonths_def Let_def startOfDay_def dayNumber_def one dayFromYear_Suc)
  finally have e: "valueOf (addMonths 12 ?c)
      = (dayFromYear (dYear s) + int (daysInYear (dYear s))) * 86400000" .
  have m: "dMonth s < 12" and le: "dDate s \<le> daysInMonth (dYear s) (dMonth s)"
    using assms by (simp_all add: validDayjs_def)
  have "int (sum_list (map (daysInMonth (dYear s)) [0..<dMonth s])) + int (dDate s)
      \<le> int (daysInYear (dYear s))"
    using months_within_year [OF m, of "dYear s"] le by linarith
  then have "dayNumber s + 1 \<le> dayFromYear (dYear s) + int (daysInYear (dYear s))"
    by (simp add: dayNumber_def)
  then have "(dayNumber s + 1) * 86400000
      \<le> (dayFromYear (dYear s) + int (daysInYear (dYear s))) * 86400000"
    by simp
  then show ?thesis using valueOf_bounds(2) [OF assms] e by simp
qed

lemma period_end_after:
  assumes "validDayjs s"
  shows "valueOf s
       < valueOf (add1 (getDayjsUnit (upperPrecision p)) (startOf (getDayjsUnit (upperPrecision p)) s))"
  using period_end_Day [OF assms] period_end_Month [OF assms] period_end_Year [OF assms]
  by (cases p) simp_all

section \<open>Properties of the unit partitioner\<close>

lemma lowerLoop_stop:
  assumes "\<not> isBefore c (chartEnd cfg)"
  shows "lowerLoop cfg p z c acc = Some acc"
  using assms by (subst lowerLoop.simps) simp

lemma upperLoop_stop:
  assumes "\<not> isBefore c (chartEnd cfg)"
  shows "upperLoop cfg p z c acc = Some acc"
  using assms by (subst upperLoop.simps) simp

lemma upperLoop_inverted:
  assumes v: "validDayjs (chartStart cfg)"
    and inv: "valueOf (chartEnd cfg) \<le> valueOf (chartStart cfg)"
  shows "\<exists>us. upperLoop cfg p z
            (startOf (getDayjsUnit (upperPrecision p)) (chartStart cfg)) [] = Some us"
proof -
  let ?u = "getDayjsUnit (upperPrecision p)"
  let ?c = "startOf ?u (chartStart cfg)"
  have "valueOf (chartStart cfg) < valueOf (add1 ?u ?c)" using v by (rule period_end_after)
  then have stop: "\<not> isBefore (add1 ?u ?c) (chartEnd cfg)" using inv by (simp add: isBefore_def)
  show ?thesis
  proof (cases "isBefore ?c (chartEnd cfg)")
    case True
    then show ?thesis
      by (subst upperLoop.simps) (simp add: Let_def upperLoop_stop [OF stop])
  next
    case False
    then show ?thesis by (simp add: upperLoop_stop)
  qed
qed

text \<open>
  C8. When the end of the viewport does not come after its start, the unit computation
  returns: the lower loop makes no step and its result is empty, the upper loop ends
  after at most one step, because the period that holds the start ends after the start,
  and \<open>timeaxisUnits\<close> returns a result for every state of the stores, with an empty
  lower row whenever the lower row is not taken from its store.
\<close>

theorem C8_inverted_viewport:
  assumes "validDayjs (chartStart cfg)"
    and "valueOf (chartEnd cfg) \<le> valueOf (chartStart cfg)"
  shows "lowerLoop cfg precision zoom (chartStart cfg) [] = Some []
       \<and> (\<exists>us. upperLoop cfg precision zoom
                  (startOf (getDayjsUnit (upperPrecision precision)) (chartStart cfg)) [] = Some us)
       \<and> (\<exists>r cache'. timeaxisUnits cfg now st cache = Some (r, cache')
             \<and> (fst (getFromCache now (lower cache)
                        (getCacheKey (chartStart cfg) (chartEnd cfg)
                           (Base (internalPrecision st)) (zoomLevel st))) = None
                  \<longrightarrow> lowerUnits r = []))"
proof -
  have nb: "\<not> isBefore (chartStart cfg) (chartEnd cfg)" using assms(2) by (simp add: isBefore_def)
  have low: "lowerLoop cfg p z (chartStart cfg) [] = Some []" for p z
    using nb by (rule lowerLoop_stop)
  have up: "\<exists>us. upperLoop cfg p z
            (startOf (getDayjsUnit (upperPrecision p)) (chartStart cfg)) [] = Some us" for p z
    using assms by (rule upperLoop_inverted)
  obtain us where us: "upperLoop cfg (internalPrecision st) (zoomLevel st)
       (startOf (getDayjsUnit (upperPrecision (internalPrecision st))) (chartStart cfg)) [] = Some us"
    using up by blast
  have row: "\<exists>ls s'. lowerRow cfg now (internalPrecision st) (zoomLevel st) (lower cache) = Some (ls, s')
       \<and> (fst (getFromCache now (lower cache)
                  (getCacheKey (chartStart cfg) (chartEnd cfg)
                     (Base (internalPrecision st)) (zoomLevel st))) = None \<longrightarrow> ls = [])"
    by (cases "getFromCache now (lower cache)
                  (getCacheKey (chartStart cfg) (chartEnd cfg)
                     (Base (internalPrecision st)) (zoomLevel st))")
       (auto simp: lowerRow_def Let_def low split: option.splits)
  have urow: "\<exists>hs s'. upperRow cfg now (internalPrecision st) (zoomLevel st) (upper cache) = Some (hs, s')"
    by (cases "getFromCache now (upper cache)
                  (getCacheKey (chartStart cfg) (chartEnd cfg)
                     (upperPrecision (internalPrecision st)) (zoomLevel st))")
       (auto simp: upperRow_def Let_def us split: option.splits)
  from row urow have "\<exists>r cache'. timeaxisUnits cfg now st cache = Some (r, cache')
             \<and> (fst (getFromCache now (lower cache)
                        (getCacheKey (chartStart cfg) (chartEnd cfg)
                           (Base (internalPrecision st)) (zoomLevel st))) = None
                  \<longrightarrow> lowerUnits r = [])"
    by (auto simp: timeaxisUnits_def Let_def)
  then show ?thesis using low up by blast
qed

lemmas cal_eval = valueOf_def dayNumber_def dayFromYear_def daysInMonth_def isLeapYear_def
  isBefore_def isAfter_def nextDay_def validDayjs_def atHour_def

theorem C8_inverted_viewport_witness:
  "validDayjs (atHour 2024 11 25 8)
   \<and> valueOf (atHour 2024 11 25 7) \<le> valueOf (atHour 2024 11 25 8)
   \<and> lowerLoop (plainConfig (atHour 2024 11 25 8) (atHour 2024 11 25 7)) Hour 3
        (atHour 2024 11 25 8) [] = Some []
   \<and> (\<exists>r cache'. timeaxisUnits (plainConfig (atHour 2024 11 25 8) (atHour 2024 11 25 7)) 0
          \<lparr>configPrecision = Hour, internalPrecision = Hour, zoomLevel = 3\<rparr> emptyCache
          = Some (r, cache') \<and> lowerUnits r = [])"
proof -
  let ?cfg = "plainConfig (atHour 2024 11 25 8) (atHour 2024 11 25 7)"
  have v: "validDayjs (chartStart ?cfg)" by (simp add: plainConfig_def cal_eval)
  have i: "valueOf (chartEnd ?cfg) \<le> valueOf (chartStart ?cfg)"
    by (simp add: plainConfig_def cal_eval)
  have s: "chartStart ?cfg = atHour 2024 11 25 8" "chartEnd ?cfg = atHour 2024 11 25 7"
    by (simp_all add: plainConfig_def)
  have m: "fst (getFromCache 0 (lower emptyCache) k) = None" for k
    by (simp add: getFromCache_def emptyCache_def)
  show ?thesis
    using C8_inverted_viewport [OF v i, of Hour 3 0
        "\<lparr>configPrecision = Hour, internalPrecision = Hour, zoomLevel = 3\<rparr>" emptyCache]
      v i m
    by (simp add: s)
qed

lemmas loop_eval = cal_eval unitWidth_def BASE_UNIT_WIDTH_def toString_def toStringNat.simps
  digit_def getFromCache_def emptyCache_def

lemma scenario_lower:
  "lowerLoop (scenario cfg) Hour 3 (atHour 2024 11 25 8) [] =
     Some (map (\<lambda>m. createTimeaxisUnit (scenario cfg) m ''HH'' ''72px'') scenarioHours)"
  by (simp add: lowerLoop.simps scenario_def scenarioHours_def loop_eval del: One_nat_def)

lemma scenario_upper:
  "upperLoop (scenario cfg) Hour 3 (atHour 2024 11 25 0) [] =
     Some [createTimeaxisUnit (scenario cfg) (atHour 2024 11 25 0) ''DD.MMM'' ''1152px'',
           createTimeaxisUnit (scenario cfg) (atHour 2024 11 26 0) ''DD.MMM'' ''1728px'',
           createTimeaxisUnit (scenario cfg) (atHour 2024 11 27 0) ''DD.MMM'' ''1656px'']"
  by (simp add: upperLoop.simps scenario_def loop_eval unitsInPeriod_def Let_def startOfDay_def
        del: One_nat_def)

lemma formatCore_HH:
  assumes "dHour m < 100"
  shows "formatCore m ''HH'' = twoDigits (dHour m)"
proof -
  have "formatCore m [] = []" by (subst formatCore.simps) simp
  then show ?thesis
    using assms by (subst formatCore.simps) (simp add: startsWith_def pad_two_digits)
qed

lemma digit_code:
  assumes "n < 10"
  shows "of_char (digit n) = 48 + n"
proof -
  from assms have "n \<in> {0, 1, 2, 3, 4, 5, 6, 7, 8, 9}" by auto
  then show ?thesis by (auto simp: digit_def)
qed

lemma capitalizeWords_digits:
  assumes "a < 10" and "b < 10"
  shows "capitalizeWords latin1 (codes [digit a, digit b]) = codes [digit a, digit b]"
  using assms
  by (simp add: codes_def digit_code capitalizeWords_def isSpace_def startsWithLetter_def
        latin1_def latin1Letter_def)

lemma hour_label:
  assumes "dHour m < 100"
  shows "capitalizeWords latin1 (codes (formatCore m ''HH'')) = codes (twoDigits (dHour m))"
  using assms by (simp add: formatCore_HH twoDigits_def capitalizeWords_digits)

lemma scenario_labels:
  "map (\<lambda>m. capitalizeWords latin1 (codes (formatCore m ''HH''))) scenarioHours
     = map codes scenarioLabels"
  by (simp add: scenarioHours_def scenarioLabels_def atHour_def hour_label twoDigits_def digit_def)

lemma createTimeaxisUnit_fields:
  "width (createTimeaxisUnit cfg m f w) = w"
  "date (createTimeaxisUnit cfg m f w) = m"
  "label (createTimeaxisUnit cfg m f w) = capitalizeWords (runtime cfg) (formatDayjs cfg m f)"
  by (simp_all add: createTimeaxisUnit_def Let_def)

lemma scenario_fields:
  "chartStart (scenario cfg) = atHour 2024 11 25 8"
  "chartEnd (scenario cfg) = atHour 2024 11 27 23"
  "runtime (scenario cfg) = runtime cfg"
  "formatDayjs (scenario cfg) = formatDayjs cfg"
  by (simp_all add: scenario_def)

lemma length_scenarioHours: "length scenarioHours = 63"
  by (simp add: scenarioHours_def)

lemma miss_empty: "getFromCache now Map.empty key = (None, Map.empty)"
  by (simp add: getFromCache_def)

text \<open>
  C2. For the viewport from 2024-12-25 08:00 to 2024-12-27 23:00, precision \<open>hour\<close> and
  zoom 3 (a unit width of 72 pixels), on empty stores: the lower row has one cell for
  each hour, 63 cells of width \<open>72px\<close>, each labelled with its moment in the format
  \<open>HH\<close> (with the English formatter, the labels \<open>08\<close> to \<open>23\<close>, \<open>00\<close> to
  \<open>23\<close> and \<open>00\<close> to \<open>22\<close>); the upper row has one cell for each day, of widths
  \<open>1152px\<close> (16 hours), \<open>1728px\<close> (24 hours) and \<open>1656px\<close> (23 hours).
\<close>

theorem C2_end_to_end:
  "\<exists>r cache'.
     timeaxisUnits (scenario cfg) now
       \<lparr>configPrecision = c, internalPrecision = Hour, zoomLevel = 3\<rparr> emptyCache
       = Some (r, cache')
     \<and> length (lowerUnits r) = 63
     \<and> map date (lowerUnits r) = scenarioHours
     \<and> map width (lowerUnits r) = replicate 63 ''72px''
     \<and> map label (lowerUnits r)
         = map (\<lambda>m. capitalizeWords (runtime cfg) (formatDayjs cfg m ''HH'')) scenarioHours
     \<and> map date (upperUnits r)
         = [atHour 2024 11 25 0, atHour 2024 11 26 0, atHour 2024 11 27 0]
     \<and> map width (upperUnits r) = [''1152px'', ''1728px'', ''1656px'']
     \<and> map (\<lambda>m. capitalizeWords latin1 (codes (formatCore m ''HH''))) scenarioHours
         = map codes scenarioLabels
     \<and> unitWidth 3 = 72 \<and> getDisplayFormat (Base Hour) = ''HH''"
proof -
  have w: "map (\<lambda>m. ''72px'') scenarioHours = replicate 63 ''72px''"
    by (simp add: map_replicate_const length_scenarioHours)
  have st: "startOfDay (atHour 2024 11 25 8) = atHour 2024 11 25 0"
    by (simp add: startOfDay_def atHour_def)
  show ?thesis
    by (simp add: timeaxisUnits_def lowerRow_def upperRow_def Let_def emptyCache_def miss_empty
          scenario_fields scenario_lower scenario_upper st createTimeaxisUnit_fields
          length_scenarioHours w scenario_labels o_def unitWidth_def BASE_UNIT_WIDTH_def)
qed

lemma daysInMonth_pos: "1 \<le> daysInMonth y m"
  by (simp add: daysInMonth_def)

lemma nextDay_valid:
  assumes "validDayjs d"
  shows "validDayjs (nextDay d)"
  using assms daysInMonth_pos [of "dYear d" "dMonth d + 1"] daysInMonth_pos [of "dYear d + 1" 0]
  by (auto simp: validDayjs_def nextDay_def)

lemma valueOf_nextDay:
  assumes "validDayjs d"
  shows "valueOf (nextDay d) = valueOf d + 86400000"
proof -
  have t: "dHour (nextDay d) = dHour d" "dMinute (nextDay d) = dMinute d"
    "dSecond (nextDay d) = dSecond d" "dMillisecond (nextDay d) = dMillisecond d"
    by (simp_all add: nextDay_def)
  show ?thesis
    using dayNumber_nextDay [OF assms] by (simp add: valueOf_def t)
qed

lemma add1_UHour:
  assumes "validDayjs d"
  shows "validDayjs (add1 UHour d) \<and> valueOf (add1 UHour d) = valueOf d + 3600000"
proof (cases "dHour d + 1 < 24")
  case True
  then show ?thesis using assms by (simp add: validDayjs_def valueOf_def dayNumber_def)
next
  case False
  with assms have h: "dHour d = 23" by (simp add: validDayjs_def)
  let ?m = "d\<lparr>dHour := 0\<rparr>"
  have v: "validDayjs ?m" using assms by (simp add: validDayjs_def)
  have "valueOf ?m + 82800000 = valueOf d"
    using h by (simp add: valueOf_def dayNumber_def)
  then show ?thesis
    using False nextDay_valid [OF v] valueOf_nextDay [OF v] by simp
qed

lemma add1_UDay:
  assumes "validDayjs d"
  shows "validDayjs (add1 UDay d) \<and> valueOf (add1 UDay d) = valueOf d + 86400000"
  using nextDay_valid [OF assms] valueOf_nextDay [OF assms] by simp

lemma nextDay_funpow:
  assumes "validDayjs d"
  shows "validDayjs ((nextDay ^^ n) d) \<and> valueOf ((nextDay ^^ n) d) = valueOf d + int n * 86400000"
proof (induction n)
  case 0
  then show ?case using assms by simp
next
  case (Suc n)
  then have v: "validDayjs ((nextDay ^^ n) d)"
    and e: "valueOf ((nextDay ^^ n) d) = valueOf d + int n * 86400000"
    by simp_all
  show ?case
    using nextDay_valid [OF v] valueOf_nextDay [OF v] e by (simp add: algebra_simps)
qed

lemma add1_UWeek:
  assumes "validDayjs d"
  shows "validDayjs (add1 UWeek d) \<and> valueOf (add1 UWeek d) = valueOf d + 604800000"
  using nextDay_funpow [OF assms, of 7] by simp

lemma ceilDiv_nonpos: "a \<le> 0 \<Longrightarrow> 0 < b \<Longrightarrow> ceilDiv a b \<le> 0"
  by (simp add: ceilDiv_def ceiling_le_zero divide_nonpos_pos)

lemma ceilDiv_pos: "0 < a \<Longrightarrow> 0 < b \<Longrightarrow> 0 < ceilDiv a b"
  by (simp add: ceilDiv_def)

lemma ceilDiv_step: "b \<noteq> 0 \<Longrightarrow> ceilDiv (a - b) b = ceilDiv a b - 1"
  by (simp add: ceilDiv_def diff_divide_distrib)

lemma ceilDiv_add_le: "ceilDiv (x + y) b \<le> ceilDiv x b + ceilDiv y b"
  by (simp add: ceilDiv_def add_divide_distrib ceiling_add_le)

lemma ceilDiv_add_ge: "ceilDiv x b + ceilDiv y b \<le> ceilDiv (x + y) b + 1"
proof -
  let ?p = "rat_of_int x / rat_of_int b" and ?q = "rat_of_int y / rat_of_int b"
  have "of_int \<lceil>?p\<rceil> < ?p + 1" "of_int \<lceil>?q\<rceil> < ?q + 1" by linarith+
  then have "of_int (\<lceil>?p\<rceil> + \<lceil>?q\<rceil>) < ?p + ?q + 2" by simp
  also have "?p + ?q \<le> of_int \<lceil>?p + ?q\<rceil>" by linarith
  finally have "of_int (\<lceil>?p\<rceil> + \<lceil>?q\<rceil>) < (of_int (\<lceil>?p + ?q\<rceil> + 2) :: rat)" by simp
  then have "\<lceil>?p\<rceil> + \<lceil>?q\<rceil> < \<lceil>?p + ?q\<rceil> + 2" by (simp only: of_int_less_iff)
  then show ?thesis by (simp add: ceilDiv_def add_divide_distrib)
qed

lemma unitsInPeriod_fixed:
  assumes "p \<noteq> Month"
  shows "unitsInPeriod p s e = ceilDiv (valueOf e - valueOf s) (countMillis p)"
  using assms by (cases p) (simp_all add: unitsInPeriod_def ceilDiv_def)

lemma add1_step:
  assumes "validDayjs d" and "p \<noteq> Month"
  shows "validDayjs (add1 (getDayjsUnit (Base p)) d)
       \<and> valueOf (add1 (getDayjsUnit (Base p)) d) = valueOf d + stepMillis p"
  using assms add1_UHour [OF assms(1)] add1_UDay [OF assms(1)] add1_UWeek [OF assms(1)]
  by (cases p) simp_all

lemma stepMillis_pos: "p \<noteq> Month \<Longrightarrow> 0 < stepMillis p"
  by (cases p) simp_all

lemma lowerLoop_fixed:
  assumes "validDayjs c" and "p \<noteq> Month"
  shows "\<exists>cells. lowerLoop cfg p z c acc = Some (acc @ cells)
           \<and> map width cells =
               replicate (nat (ceilDiv (valueOf (chartEnd cfg) - valueOf c) (stepMillis p)))
                 (toString (unitWidth z) @ ''px'')"
  using assms(1)
proof (induction "nat (valueOf (chartEnd cfg) - valueOf c)" arbitrary: c acc rule: less_induct)
  case less
  let ?e = "valueOf (chartEnd cfg)"
  let ?u = "stepMillis p"
  have up: "0 < ?u" using assms(2) by (rule stepMillis_pos)
  show ?case
  proof (cases "isBefore c (chartEnd cfg)")
    case False
    then have "?e - valueOf c \<le> 0" by (simp add: isBefore_def)
    then have "ceilDiv (?e - valueOf c) ?u \<le> 0" using up by (rule ceilDiv_nonpos)
    then show ?thesis using False by (simp add: lowerLoop_stop)
  next
    case True
    let ?n = "add1 (getDayjsUnit (Base p)) c"
    let ?cell = "createTimeaxisUnit cfg c (getDisplayFormat (Base p)) (toString (unitWidth z) @ ''px'')"
    from add1_step [OF less.prems assms(2)]
    have v: "validDayjs ?n" and s: "valueOf ?n = valueOf c + ?u" by simp_all
    have lt: "valueOf c < ?e" using True by (simp add: isBefore_def)
    have m: "nat (?e - valueOf ?n) < nat (?e - valueOf c)" using s up lt by simp
    from less.hyps [OF m v, of "acc @ [?cell]"]
    obtain cells where r: "lowerLoop cfg p z ?n (acc @ [?cell]) = Some ((acc @ [?cell]) @ cells)"
      and w: "map width cells = replicate (nat (ceilDiv (?e - valueOf ?n) ?u))
                 (toString (unitWidth z) @ ''px'')"
      by blast
    have "ceilDiv (?e - valueOf ?n) ?u = ceilDiv (?e - valueOf c) ?u - 1"
      using ceilDiv_step [of ?u "?e - valueOf c"] up s by (simp add: algebra_simps)
    moreover have "0 < ceilDiv (?e - valueOf c) ?u" using lt up by (intro ceilDiv_pos) simp_all
    ultimately have c: "nat (ceilDiv (?e - valueOf c) ?u) = Suc (nat (ceilDiv (?e - valueOf ?n) ?u))"
      by simp
    have "lowerLoop cfg p z c acc = Some (acc @ (?cell # cells))"
      using True r by (subst lowerLoop.simps) simp
    moreover have "map width (?cell # cells) =
        replicate (nat (ceilDiv (?e - valueOf c) ?u)) (toString (unitWidth z) @ ''px'')"
      using w c by (simp add: createTimeaxisUnit_fields)
    ultimately show ?thesis by blast
  qed
qed

lemma add1_aligned:
  assumes "aligned U c"
  shows "aligned U (add1 U c) \<and> valueOf c < valueOf (add1 U c)"
proof -
  from assms have v: "validDayjs c"
    and z: "dHour c = 0" "dMinute c = 0" "dSecond c = 0" "dMillisecond c = 0"
    and U: "U = UDay \<or> U = UMonth \<and> dDate c = 1"
    by (simp_all add: aligned_def)
  from U show ?thesis
  proof
    assume d: "U = UDay"
    have t: "dHour (nextDay c) = 0" "dMinute (nextDay c) = 0" "dSecond (nextDay c) = 0"
      "dMillisecond (nextDay c) = 0"
      using z by (simp_all add: nextDay_def)
    show ?thesis
      using d t nextDay_valid [OF v] valueOf_nextDay [OF v] by (simp add: aligned_def)
  next
    assume "U = UMonth \<and> dDate c = 1"
    then have m: "U = UMonth" and one: "dDate c = 1" by simp_all
    let ?n = "addMonths 1 c"
    have mo: "dMonth c < 12" using v by (simp add: validDayjs_def)
    have min1: "min (Suc 0) (daysInMonth y k) = Suc 0" for y k by (simp add: daysInMonth_def)
    have t: "dHour ?n = 0" "dMinute ?n = 0" "dSecond ?n = 0" "dMillisecond ?n = 0" "dDate ?n = 1"
      using z one by (simp_all add: addMonths_def Let_def min1)
    have mr: "dMonth ?n < 12" by (simp add: addMonths_def Let_def)
    have vn: "validDayjs ?n"
      using t mr daysInMonth_pos [of "dYear ?n" "dMonth ?n"] by (simp add: validDayjs_def)
    have "valueOf ?n = dayNumber ?n * 86400000" using t by (intro valueOf_midnight) simp_all
    also have "dayNumber ?n = dayNumber c + int (daysInMonth (dYear c) (dMonth c))"
      using mo one by (rule addMonths_1_first)
    finally have "valueOf ?n = valueOf c + int (daysInMonth (dYear c) (dMonth c)) * 86400000"
      using valueOf_midnight [OF z] by (simp add: algebra_simps)
    moreover have "0 < int (daysInMonth (dYear c) (dMonth c))"
      using daysInMonth_pos [of "dYear c" "dMonth c"] by linarith
    ultimately have "valueOf c < valueOf ?n" by simp
    then show ?thesis using m t vn by (simp add: aligned_def)
  qed
qed

lemma startOf_aligned:
  assumes "validDayjs s" and "U = UDay \<or> U = UMonth"
  shows "aligned U (startOf U s) \<and> valueOf (startOf U s) \<le> valueOf s"
proof -
  from assms(2) show ?thesis
  proof
    assume d: "U = UDay"
    have n: "dayNumber (startOfDay s) = dayNumber s" by (simp add: dayNumber_def startOfDay_def)
    have "valueOf (startOfDay s) = dayNumber (startOfDay s) * 86400000"
      by (rule valueOf_midnight) (simp_all add: startOfDay_def)
    then have "valueOf (startOfDay s) \<le> valueOf s"
      using valueOf_bounds(1) [OF assms(1)] n by simp
    then show ?thesis using d assms(1) by (simp add: aligned_def validDayjs_def startOfDay_def)
  next
    assume m: "U = UMonth"
    let ?c = "startOfDay (s\<lparr>dDate := 1\<rparr>)"
    have one: "1 \<le> dDate s" using assms(1) by (simp add: validDayjs_def)
    have n: "dayNumber ?c \<le> dayNumber s"
      using one by (simp add: dayNumber_def startOfDay_def)
    have "valueOf ?c = dayNumber ?c * 86400000"
      by (rule valueOf_midnight) (simp_all add: startOfDay_def)
    then have "valueOf ?c \<le> valueOf s"
      using valueOf_bounds(1) [OF assms(1)] n by simp
    then show ?thesis
      using m assms(1) daysInMonth_pos [of "dYear s" "dMonth s"]
      by (simp add: aligned_def validDayjs_def startOfDay_def)
  qed
qed

lemma countMillis_pos: "p \<noteq> Month \<Longrightarrow> 0 < countMillis p"
  by (cases p) simp_all

lemma upperLoop_fixed:
  assumes p: "p \<noteq> Month" and z: "0 < z"
    and se: "valueOf (chartStart cfg) < valueOf (chartEnd cfg)"
    and al: "aligned (getDayjsUnit (upperPrecision p)) c"
    and after: "valueOf (chartStart cfg) < valueOf (add1 (getDayjsUnit (upperPrecision p)) c)"
  shows "\<exists>cells ns. upperLoop cfg p z c acc = Some (acc @ cells)
           \<and> map width cells = map (\<lambda>n. toString (n * unitWidth z) @ ''px'') ns
           \<and> (if valueOf c < valueOf (chartEnd cfg)
               then ns \<noteq> []
                    \<and> ceilDiv (valueOf (chartEnd cfg) - max (valueOf c) (valueOf (chartStart cfg)))
                         (countMillis p) \<le> sum_list ns
                    \<and> sum_list ns + 1
                        \<le> ceilDiv (valueOf (chartEnd cfg)
                                      - max (valueOf c) (valueOf (chartStart cfg)))
                             (countMillis p) + int (length ns)
               else ns = [])"
  using al after
proof (induction "nat (valueOf (chartEnd cfg) - valueOf c)" arbitrary: c acc rule: less_induct)
  case less
  let ?e = "valueOf (chartEnd cfg)" and ?s = "valueOf (chartStart cfg)"
  let ?u = "countMillis p"
  let ?U = "getDayjsUnit (upperPrecision p)"
  have up: "0 < ?u" using p by (rule countMillis_pos)
  show ?case
  proof (cases "valueOf c < ?e")
    case False
    then have "\<not> isBefore c (chartEnd cfg)" by (simp add: isBefore_def)
    then have "upperLoop cfg p z c acc = Some (acc @ [])" by (simp add: upperLoop_stop)
    then show ?thesis using False by (intro exI [of _ "[]"]) simp
  next
    case True
    let ?n = "add1 ?U c"
    from add1_aligned [OF less.prems(1)]
    have an: "aligned ?U ?n" and cn: "valueOf c < valueOf ?n" by simp_all
    from add1_aligned [OF an] have nn: "valueOf ?n < valueOf (add1 ?U ?n)" by simp
    have after': "?s < valueOf (add1 ?U ?n)" using less.prems(2) nn by simp
    let ?es = "if isBefore c (chartStart cfg) then chartStart cfg else c"
    let ?ee = "if isAfter ?n (chartEnd cfg) then chartEnd cfg else ?n"
    have es: "valueOf ?es = max (valueOf c) ?s" by (simp add: isBefore_def max_def)
    have ee: "valueOf ?ee = min (valueOf ?n) ?e" by (simp add: isAfter_def min_def)
    let ?k = "unitsInPeriod p ?es ?ee"
    have k: "?k = ceilDiv (min (valueOf ?n) ?e - max (valueOf c) ?s) ?u"
      using unitsInPeriod_fixed [OF p, of ?es ?ee] es ee by simp
    have "0 < min (valueOf ?n) ?e - max (valueOf c) ?s"
      using cn less.prems(2) True se by (simp add: min_def max_def)
    then have kpos: "0 < ?k" unfolding k using up by (rule ceilDiv_pos)
    have wpos: "0 < unitWidth z" using z by (simp add: unitWidth_def BASE_UNIT_WIDTH_def)
    have tw: "0 < ?k * unitWidth z" using kpos wpos by simp
    let ?cell = "createTimeaxisUnit cfg c (getDisplayFormat (upperPrecision p))
                   (toString (?k * unitWidth z) @ ''px'')"
    have m: "nat (?e - valueOf ?n) < nat (?e - valueOf c)" using cn True by simp
    from less.hyps [OF m an after', of "acc @ [?cell]"]
    obtain cells ns where r: "upperLoop cfg p z ?n (acc @ [?cell]) = Some ((acc @ [?cell]) @ cells)"
      and w: "map width cells = map (\<lambda>n. toString (n * unitWidth z) @ ''px'') ns"
      and b: "if valueOf ?n < ?e
               then ns \<noteq> []
                    \<and> ceilDiv (?e - max (valueOf ?n) ?s) ?u \<le> sum_list ns
                    \<and> sum_list ns + 1 \<le> ceilDiv (?e - max (valueOf ?n) ?s) ?u + int (length ns)
               else ns = []"
      by blast
    have cond: "isBefore c (chartEnd cfg)" using True by (simp add: isBefore_def)
    have "upperLoop cfg p z c acc
        = upperLoop cfg p z ?n (if 0 < ?k * unitWidth z then acc @ [?cell] else acc)"
      by (subst upperLoop.simps) (simp only: cond if_True Let_def)
    then have run: "upperLoop cfg p z c acc = Some (acc @ (?cell # cells))"
      using tw r by simp
    have wid: "map width (?cell # cells)
        = map (\<lambda>n. toString (n * unitWidth z) @ ''px'') (?k # ns)"
      using w by (simp add: createTimeaxisUnit_fields)
    let ?R = "ceilDiv (?e - max (valueOf c) ?s) ?u"
    have bounds: "?R \<le> sum_list (?k # ns) \<and> sum_list (?k # ns) + 1 \<le> ?R + int (length (?k # ns))"
    proof (cases "valueOf ?n < ?e")
      case False
      with b have "ns = []" by simp
      moreover have "min (valueOf ?n) ?e = ?e" using False by simp
      ultimately show ?thesis using k by simp
    next
      case nlt: True
      with b have b1: "ceilDiv (?e - max (valueOf ?n) ?s) ?u \<le> sum_list ns"
        and b2: "sum_list ns + 1 \<le> ceilDiv (?e - max (valueOf ?n) ?s) ?u + int (length ns)"
        by simp_all
      have mx: "max (valueOf ?n) ?s = valueOf ?n" using less.prems(2) by simp
      have mn: "min (valueOf ?n) ?e = valueOf ?n" using nlt by simp
      let ?a = "valueOf ?n - max (valueOf c) ?s" and ?b = "?e - valueOf ?n"
      have split: "?e - max (valueOf c) ?s = ?a + ?b" by simp
      have le: "?R \<le> ceilDiv ?a ?u + ceilDiv ?b ?u"
        unfolding split by (rule ceilDiv_add_le)
      have ge: "ceilDiv ?a ?u + ceilDiv ?b ?u \<le> ?R + 1"
        unfolding split by (rule ceilDiv_add_ge)
      have ka: "?k = ceilDiv ?a ?u" using k mn by simp
      show ?thesis using le ge b1 b2 ka mx by simp
    qed
    show ?thesis
      using run wid bounds True
      by (intro exI [of _ "?cell # cells"] exI [of _ "?k # ns"]) simp
  qed
qed

text \<open>
  At precision \<open>hour\<close>, \<open>day\<close> or \<open>week\<close>, for a viewport whose start is before its
  end and a positive zoom, on empty stores: the lower row has as many cells as units fit
  into the viewport, rounded up; every upper cell is as wide as the units counted in its
  period; and the upper counts add up to at least the number of lower cells and exceed it
  by less than the number of upper cells.
\<close>

lemma fixed_units_reconcile:
  assumes v: "validDayjs (chartStart cfg)"
    and se: "valueOf (chartStart cfg) < valueOf (chartEnd cfg)"
    and z: "0 < zoomLevel st"
    and p: "internalPrecision st = Hour \<or> internalPrecision st = Day \<or> internalPrecision st = Week"
  shows "\<exists>r cache' ns.
           timeaxisUnits cfg now st emptyCache = Some (r, cache')
           \<and> map width (lowerUnits r) =
               replicate (nat (ceilDiv (valueOf (chartEnd cfg) - valueOf (chartStart cfg))
                                (stepMillis (internalPrecision st))))
                 (toString (unitWidth (zoomLevel st)) @ ''px'')
           \<and> map width (upperUnits r) =
               map (\<lambda>n. toString (n * unitWidth (zoomLevel st)) @ ''px'') ns
           \<and> ceilDiv (valueOf (chartEnd cfg) - valueOf (chartStart cfg))
                 (stepMillis (internalPrecision st)) \<le> sum_list ns
           \<and> sum_list ns + 1
               \<le> ceilDiv (valueOf (chartEnd cfg) - valueOf (chartStart cfg))
                    (stepMillis (internalPrecision st)) + int (length ns)"
proof -
  let ?p = "internalPrecision st" and ?z = "zoomLevel st"
  let ?U = "getDayjsUnit (upperPrecision ?p)"
  let ?s = "valueOf (chartStart cfg)" and ?e = "valueOf (chartEnd cfg)"
  have nm: "?p \<noteq> Month" using p by auto
  have UU: "?U = UDay \<or> ?U = UMonth" using p by auto
  have same: "countMillis ?p = stepMillis ?p" using p by auto
  from lowerLoop_fixed [OF v nm, of cfg ?z "[]"]
  obtain ls where l1: "lowerLoop cfg ?p ?z (chartStart cfg) [] = Some ls"
    and l2: "map width ls = replicate (nat (ceilDiv (?e - ?s) (stepMillis ?p)))
               (toString (unitWidth ?z) @ ''px'')"
    by auto
  let ?c = "startOf ?U (chartStart cfg)"
  from startOf_aligned [OF v UU] have al: "aligned ?U ?c" and le: "valueOf ?c \<le> ?s" by simp_all
  have after: "?s < valueOf (add1 ?U ?c)" using v by (rule period_end_after)
  have lt: "valueOf ?c < ?e" using le se by simp
  have mx: "max (valueOf ?c) ?s = ?s" using le by simp
  from upperLoop_fixed [OF nm z se al after, of "[]"]
  obtain us ns where u1: "upperLoop cfg ?p ?z ?c [] = Some us"
    and u2: "map width us = map (\<lambda>n. toString (n * unitWidth ?z) @ ''px'') ns"
    and u3: "ceilDiv (?e - ?s) (stepMillis ?p) \<le> sum_list ns"
    and u4: "sum_list ns + 1 \<le> ceilDiv (?e - ?s) (stepMillis ?p) + int (length ns)"
    using lt mx same by auto
  have "\<exists>cache'. timeaxisUnits cfg now st emptyCache
      = Some (\<lparr>upperUnits = us, lowerUnits = ls,
                 globalMinuteStep = calculateMinuteSteps (enableMinutes cfg) ?p (unitWidth ?z)\<rparr>,
              cache')"
    by (simp add: timeaxisUnits_def lowerRow_def upperRow_def Let_def emptyCache_def miss_empty
          l1 u1)
  then show ?thesis using l2 u2 u3 u4 by force
qed

lemma month_prefixes:
  "[0..<1] = [0::nat]"
  "[0..<2] = [0, 1::nat]"
  "[0..<3] = [0, 1, 2::nat]"
  "[0..<4] = [0, 1, 2, 3::nat]"
  "[0..<5] = [0, 1, 2, 3, 4::nat]"
  "[0..<6] = [0, 1, 2, 3, 4, 5::nat]"
  "[0..<7] = [0, 1, 2, 3, 4, 5, 6::nat]"
  "[0..<8] = [0, 1, 2, 3, 4, 5, 6, 7::nat]"
  "[0..<9] = [0, 1, 2, 3, 4, 5, 6, 7, 8::nat]"
  "[0..<10] = [0, 1, 2, 3, 4, 5, 6, 7, 8, 9::nat]"
  "[0..<11] = [0, 1, 2, 3, 4, 5, 6, 7, 8, 9, 10::nat]"
  by code_simp+

lemma next_month: "addMonths 1 (atHour 2024 11 1 0) = atHour 2025 0 1 0"
  by (simp add: addMonths_def Let_def atHour_def daysInMonth_def)

lemma v1: "valueOf (atHour 2024 11 1 0) = 1733011200000"
  by (simp add: cal_eval month_prefixes)

lemma v2: "valueOf (atHour 2025 0 1 0) = 1735689600000"
  by (simp add: cal_eval month_prefixes)

lemma v3: "valueOf (atHour 2024 11 3 0) = 1733184000000"
  by (simp add: cal_eval month_prefixes)

lemma twoDays_lower:
  "lowerLoop (twoDays cfg) p 3 (atHour 2024 11 1 0) [] =
     Some [createTimeaxisUnit (twoDays cfg) (atHour 2024 11 1 0) (getDisplayFormat (Base p))
             ''72px'',
           createTimeaxisUnit (twoDays cfg) (atHour 2024 11 2 0) (getDisplayFormat (Base p))
             ''72px'']"
  if "getDayjsUnit (Base p) = UDay"
  using that
  by (simp add: lowerLoop.simps twoDays_def loop_eval month_prefixes del: One_nat_def)

lemma twoDays_units:
  "unitsInPeriod Date (atHour 2024 11 1 0) (atHour 2024 11 3 0) = 48"
  "unitsInPeriod Day (atHour 2024 11 1 0) (atHour 2024 11 3 0) = 2"
  by (simp_all add: unitsInPeriod_def v1 v3 del: One_nat_def)

lemma twoDays_upper:
  "upperLoop (twoDays cfg) p 3 (atHour 2024 11 1 0) [] =
     Some [createTimeaxisUnit (twoDays cfg) (atHour 2024 11 1 0) ''MMMM YYYY''
             (toString (unitsInPeriod p (atHour 2024 11 1 0) (atHour 2024 11 3 0) * 72) @ ''px'')]"
  if "upperPrecision p = Base Month"
    and "0 < unitsInPeriod p (atHour 2024 11 1 0) (atHour 2024 11 3 0)"
proof -
  have stop: "\<not> isBefore (atHour 2025 0 1 0) (chartEnd (twoDays cfg))"
    by (simp add: twoDays_def isBefore_def v2 v3 del: One_nat_def)
  have go: "isBefore (atHour 2024 11 1 0) (atHour 2024 11 3 0)"
    and same: "\<not> isBefore (atHour 2024 11 1 0) (atHour 2024 11 1 0)"
    and clip: "isAfter (atHour 2025 0 1 0) (atHour 2024 11 3 0)"
    by (simp_all add: isBefore_def isAfter_def v1 v2 v3 del: One_nat_def)
  have e: "chartEnd (twoDays cfg) = atHour 2024 11 3 0"
    "chartStart (twoDays cfg) = atHour 2024 11 1 0" by (simp_all add: twoDays_def)
  show ?thesis
    by (subst upperLoop.simps)
       (simp add: that go same clip next_month Let_def upperLoop_stop [OF stop] e
          unitWidth_def BASE_UNIT_WIDTH_def del: One_nat_def)
qed

text \<open>
  C1. The widths of the lower row and of the upper row should add up to the same number
  of pixels, up to the rounding of the unit counts. At precision \<open>date\<close> they do not: the
  lower row steps by days, and the upper row counts hours, because the count has no case
  for \<open>date\<close>. For the viewport from 2024-12-01 00:00 to 2024-12-03 00:00 at zoom 3 the
  lower row has two cells of \<open>72px\<close>, 144 pixels, and the upper row one cell of
  \<open>3456px\<close>, 48 units of 72 pixels. At precision \<open>day\<close> the same viewport gives an
  upper cell of \<open>144px\<close> (\<open>day_precision_widths\<close>), and at the precisions
  \<open>hour\<close>, \<open>day\<close> and \<open>week\<close> the rows agree up to the rounding for every viewport
  (\<open>fixed_units_reconcile\<close>).
\<close>

theorem C1_date_precision_widths:
  "\<exists>r cache'.
     timeaxisUnits (twoDays cfg) now
       \<lparr>configPrecision = c, internalPrecision = Date, zoomLevel = 3\<rparr> emptyCache
       = Some (r, cache')
     \<and> map width (lowerUnits r) = [''72px'', ''72px'']
     \<and> map width (upperUnits r) = [''3456px'']
     \<and> unitsInPeriod Date (atHour 2024 11 1 0) (atHour 2024 11 3 0) = 48
     \<and> unitsInPeriod Day (atHour 2024 11 1 0) (atHour 2024 11 3 0) = 2
     \<and> getDayjsUnit (Base Date) = UDay"
proof -
  have st: "startOfDay (atHour 2024 11 1 0\<lparr>dDate := 1\<rparr>) = atHour 2024 11 1 0"
    by (simp add: startOfDay_def atHour_def del: One_nat_def)
  have s: "chartStart (twoDays cfg) = atHour 2024 11 1 0" by (simp add: twoDays_def)
  have w: "toString 3456 = ''3456''"
    by (simp add: toString_def toStringNat.simps digit_def)
  show ?thesis
    by (simp add: timeaxisUnits_def lowerRow_def upperRow_def Let_def emptyCache_def miss_empty s
          twoDays_lower twoDays_upper twoDays_units st createTimeaxisUnit_fields w
          del: One_nat_def)
qed

lemma day_precision_widths:
  "\<exists>r cache'.
     timeaxisUnits (twoDays cfg) now
       \<lparr>configPrecision = c, internalPrecision = Day, zoomLevel = 3\<rparr> emptyCache
       = Some (r, cache')
     \<and> map width (lowerUnits r) = [''72px'', ''72px'']
     \<and> map width (upperUnits r) = [''144px'']"
proof -
  have st: "startOfDay (atHour 2024 11 1 0\<lparr>dDate := 1\<rparr>) = atHour 2024 11 1 0"
    by (simp add: startOfDay_def atHour_def del: One_nat_def)
  have s: "chartStart (twoDays cfg) = atHour 2024 11 1 0" by (simp add: twoDays_def)
  have w: "toString 144 = ''144''"
    by (simp add: toString_def toStringNat.simps digit_def)
  show ?thesis
    by (simp add: timeaxisUnits_def lowerRow_def upperRow_def Let_def emptyCache_def miss_empty s
          twoDays_lower twoDays_upper twoDays_units st createTimeaxisUnit_fields w
          del: One_nat_def)
qed

end
